theory Spec2Isabelle
  imports Main "HOL-Library.List_Lexorder" "HOL-Library.Char_ord"
begin

section \<open>JavaScript values used by the programs\<close>

text \<open>
  Strings are \<open>string\<close>; the order on them (\<open>HOL-Library.List_Lexorder\<close> over
  \<open>HOL-Library.Char_ord\<close>) is the lexicographic order by character code, which is what
  JavaScript's \<open><\<close>, \<open><=\<close>, \<open>>\<close>, \<open>>=\<close> compute on two strings. A property that may be
  absent (\<open>undefined\<close>) is a \<open>string option\<close>.
\<close>

text \<open>\<open>s.endsWith(t)\<close>.\<close>

definition endsWith :: "string \<Rightarrow> string \<Rightarrow> bool" where
  "endsWith s t = (length t \<le> length s \<and> drop (length s - length t) s = t)"

text \<open>Truthiness of a string-valued property: \<open>undefined\<close> and \<open>""\<close> are falsy.\<close>

fun truthy :: "string option \<Rightarrow> bool" where
  "truthy None = False"
| "truthy (Some s) = (s \<noteq> [])"

text \<open>\<open>a || b\<close>: the left operand when it is truthy, the right operand otherwise.\<close>

definition js_or :: "string option \<Rightarrow> string option \<Rightarrow> string option" where
  "js_or a b = (if truthy a then a else b)"

text \<open>\<open>a || 'literal'\<close>, whose value is always a string.\<close>

definition or_default :: "string option \<Rightarrow> string \<Rightarrow> string" where
  "or_default a lit = (case a of Some s \<Rightarrow> (if s \<noteq> [] then s else lit) | None \<Rightarrow> lit)"

section \<open>Dates\<close>

text \<open>
  A \<open>Date\<close> object is represented by its UTC day number (days since 1970-01-01). Every
  \<open>Date\<close> that reaches the window planner is built by \<open>parseDate\<close> and is a UTC midnight, and
  \<open>setUTCDate\<close> moves it by whole days, so the day number is all the programs observe. The
  limits of the \<open>Date\<close> type (about 10^8 days either side of the epoch) are not modelled.
\<close>

type_synonym Date = int

text \<open>The civil date (proleptic Gregorian calendar) of a day number.\<close>

definition civil_from_days :: "int \<Rightarrow> int \<times> int \<times> int" where
  "civil_from_days z =
     (let z' = z + 719468;
          era = z' div 146097;
          doe = z' mod 146097;
          c = min 3 (doe div 36524);
          r1 = doe - c * 36524;
          q = r1 div 1461;
          r2 = r1 mod 1461;
          a = min 3 (r2 div 365);
          doy = r2 - a * 365;
          mp = (5 * doy + 2) div 153;
          d = doy - (153 * mp + 2) div 5 + 1;
          m = (if mp < 10 then mp + 3 else mp - 9);
          y = 400 * era + 100 * c + 4 * q + a + (if m \<le> 2 then 1 else 0)
      in (y, m, d))"

text \<open>The day number of a civil date.\<close>

definition days_from_civil :: "int \<Rightarrow> int \<Rightarrow> int \<Rightarrow> int" where
  "days_from_civil y m d =
     (let y' = (if m \<le> 2 then y - 1 else y);
          era = y' div 400;
          yoe = y' mod 400;
          mp = (m + 9) mod 12;
          doy = (153 * mp + 2) div 5 + d - 1;
          doe = yoe * 365 + yoe div 4 - yoe div 100 + doy
      in era * 146097 + doe - 719468)"

definition digit :: "int \<Rightarrow> char" where
  "digit n = ''0123456789'' ! nat n"

text \<open>The last \<open>k\<close> decimal digits of \<open>n\<close>, zero padded.\<close>

fun pad :: "nat \<Rightarrow> int \<Rightarrow> string" where
  "pad 0 n = []"
| "pad (Suc k) n = pad k (n div 10) @ [digit (n mod 10)]"

text \<open>
  The year of \<open>toISOString\<close>: four digits for the years 0 to 9999, a sign and six digits
  otherwise.
\<close>

definition isoYear :: "int \<Rightarrow> string" where
  "isoYear y =
     (if 0 \<le> y \<and> y \<le> 9999 then pad 4 y
      else (if y < 0 then CHR ''-'' else CHR ''+'') # pad 6 \<bar>y\<bar>)"

text \<open>\<open>formatDate(date)\<close>: \<open>date.toISOString().split('T')[0]\<close>.\<close>

definition formatDate :: "Date \<Rightarrow> string" where
  "formatDate date =
     (case civil_from_days date of
        (y, m, d) \<Rightarrow> isoYear y @ ''-'' @ pad 2 m @ ''-'' @ pad 2 d)"

text \<open>\<open>addDays(date, days)\<close>: a copy of the date moved by \<open>setUTCDate\<close>.\<close>

definition addDays :: "Date \<Rightarrow> int \<Rightarrow> Date" where
  "addDays date days = date + days"

text \<open>The shape \<open>\d{4}-\d{2}-\d{2}\<close> of the regular expressions that read chunk file names.\<close>

definition isDigit :: "char \<Rightarrow> bool" where
  "isDigit c = (c \<in> set ''0123456789'')"

fun isDateString :: "string \<Rightarrow> bool" where
  "isDateString [y1, y2, y3, y4, s1, m1, m2, s2, d1, d2] =
     (isDigit y1 \<and> isDigit y2 \<and> isDigit y3 \<and> isDigit y4 \<and> s1 = CHR ''-'' \<and>
      isDigit m1 \<and> isDigit m2 \<and> s2 = CHR ''-'' \<and> isDigit d1 \<and> isDigit d2)"
| "isDateString _ = False"

section \<open>The window planner\<close>

record dateRange =
  range_start :: string
  range_end :: string

text \<open>
  \<open>CHUNK_DAYS\<close> of \<open>fetch_payment_data.js\<close>, the default of \<open>getDateRanges\<close>'s third
  parameter.
\<close>

definition CHUNK_DAYS :: int where
  "CHUNK_DAYS = 30"

text \<open>
  The \<open>while\<close> loop of \<open>getDateRanges\<close>, resumed at \<open>currentStart\<close> with the \<open>ranges\<close> pushed so
  far. The loop does not end for every \<open>chunkDays\<close>; a run that never leaves it is \<open>None\<close>.
\<close>

partial_function (option) getDateRanges_loop ::
  "Date \<Rightarrow> Date \<Rightarrow> int \<Rightarrow> dateRange list \<Rightarrow> dateRange list option" where
  "getDateRanges_loop currentStart endDate chunkDays ranges =
     (if currentStart < endDate then
        (let currentEnd0 = addDays currentStart (chunkDays - 1);
             currentEnd = (if currentEnd0 > endDate then endDate else currentEnd0)
         in getDateRanges_loop (addDays currentEnd 1) endDate chunkDays
              (ranges @ [\<lparr>range_start = formatDate currentStart,
                          range_end = formatDate currentEnd\<rparr>]))
      else Some ranges)"

declare getDateRanges_loop.simps [code]

definition getDateRanges :: "Date \<Rightarrow> Date \<Rightarrow> int \<Rightarrow> dateRange list option" where
  "getDateRanges startDate endDate chunkDays =
     getDateRanges_loop startDate endDate chunkDays []"

section \<open>Events\<close>

text \<open>An entry of an upstream event's tag list.\<close>

record tag =
  tag_key :: string
  tag_value :: "string option"

text \<open>The \<open>user\<close> object of an upstream event (\<open>user.id\<close>, \<open>user.email\<close>, \<open>user.ip_address\<close>).\<close>

record sentryUser =
  user_id :: "string option"
  email :: "string option"
  ip_address :: "string option"

text \<open>
  An event as the upstream API returns it (\<open>event.id\<close> is \<open>event_id\<close> here). An absent tag
  list and an empty one behave alike (\<open>event.tags || []\<close>), so \<open>tags\<close> is a list.
\<close>

record sentryEvent =
  user :: "sentryUser option"
  dateCreated :: "string option"
  dateReceived :: "string option"
  event_id :: "string option"
  eventID :: "string option"
  tags :: "tag list"

text \<open>The minimal event record that is stored in a chunk.\<close>

record minimalEvent =
  timestamp :: string
  eventId :: "string option"
  userId :: string
  paymentErrorReason :: "string option"
  merchant_id :: "string option"
  customerId :: "string option"
  storeState :: "string option"
  storeId :: "string option"

text \<open>\<open>event.user || {}\<close>: an absent user is an object without properties.\<close>

definition userOrEmpty :: "sentryUser option \<Rightarrow> sentryUser" where
  "userOrEmpty u =
     (case u of Some v \<Rightarrow> v | None \<Rightarrow> \<lparr>user_id = None, email = None, ip_address = None\<rparr>)"

text \<open>The tag loop of \<open>extractMinimalEventData\<close> for \<open>issueType === 'payment_error'\<close>.\<close>

fun errorTags :: "tag list \<Rightarrow> minimalEvent \<Rightarrow> minimalEvent" where
  "errorTags [] minimal = minimal"
| "errorTags (t # ts) minimal =
     errorTags ts
       (if tag_key t = ''paymentErrorReason''
          then minimal\<lparr>paymentErrorReason := Some (or_default (tag_value t) ''Unknown'')\<rparr>
        else if tag_key t = ''merchant_id'' then minimal\<lparr>merchant_id := tag_value t\<rparr>
        else if tag_key t = ''customerId'' then minimal\<lparr>customerId := tag_value t\<rparr>
        else if tag_key t = ''storeState'' then minimal\<lparr>storeState := tag_value t\<rparr>
        else if tag_key t = ''storeId'' then minimal\<lparr>storeId := tag_value t\<rparr>
        else minimal)"

text \<open>The tag loop for \<open>issueType === 'payment_success'\<close>, which stops at the first match.\<close>

fun successTags :: "tag list \<Rightarrow> minimalEvent \<Rightarrow> minimalEvent" where
  "successTags [] minimal = minimal"
| "successTags (t # ts) minimal =
     (if tag_key t = ''merchant_id''
        then minimal\<lparr>merchant_id := Some (or_default (tag_value t) ''Unknown'')\<rparr>
      else successTags ts minimal)"

text \<open>
  \<open>extractMinimalEventData(event, issueType)\<close>. The first argument is the value of
  \<open>new Date().toISOString()\<close> at the call.
\<close>

definition extractMinimalEventData :: "string \<Rightarrow> sentryEvent \<Rightarrow> string \<Rightarrow> minimalEvent" where
  "extractMinimalEventData clock event issueType =
     (let u = userOrEmpty (user event);
          uid = or_default (js_or (js_or (user_id u) (email u)) (ip_address u)) ''anonymous'';
          minimal =
            \<lparr>timestamp = or_default (js_or (dateCreated event) (dateReceived event)) clock,
             eventId = js_or (event_id event) (eventID event),
             userId = uid,
             paymentErrorReason = None, merchant_id = None, customerId = None,
             storeState = None, storeId = None\<rparr>
      in if issueType = ''payment_error'' then errorTags (tags event) minimal
         else if issueType = ''payment_success'' then successTags (tags event) minimal
         else minimal)"

section \<open>The upstream API and the JavaScript runtime\<close>

text \<open>
  A request of \<open>fetchWithPagination\<close>: the first page of a window, whose URL is built from the
  issue id, \<open>startISO\<close> and \<open>endISO\<close>, or the URL taken from a \<open>Link\<close> header. The organisation
  slug and the bearer token are the same in every request and are left out.
\<close>

datatype request = FirstPage string string string | NextPage string

text \<open>
  What a request comes back with: the promise is rejected (a network error, or a body that is
  not JSON), or the body is JSON that is not an array (an error object), or it is a page of
  events, with the URL that the \<open>rel="next"\<close> pattern finds in the \<open>Link\<close> header, if any.
\<close>

datatype response = Rejected | NotIterable | Page "sentryEvent list" "string option"

text \<open>
  What the programs take from outside: \<open>new Date(s)\<close> on a string (the UTC day of the instant,
  \<open>None\<close> for an Invalid Date), the current time as \<open>new Date().toISOString()\<close> prints it, and the
  upstream API.
\<close>

record world =
  newDate :: "string \<Rightarrow> Date option"
  now :: string
  fetchWithPagination :: "request \<Rightarrow> response"

datatype error = NetworkError | TypeError | RangeError | SyntaxError

text \<open>\<open>parseDate(dateStr)\<close> of \<open>fetch_payment_data.js\<close>.\<close>

definition parseDate :: "world \<Rightarrow> string \<Rightarrow> Date option" where
  "parseDate w dateStr = newDate w (dateStr @ ''T00:00:00Z'')"

text \<open>The test \<open>d >= startDate && d <= endDate\<close> on date strings.\<close>

definition inRange :: "string \<Rightarrow> string \<Rightarrow> string \<Rightarrow> bool" where
  "inRange d startDate endDate = (d \<ge> startDate \<and> d \<le> endDate)"

text \<open>
  The \<open>for (const event of data)\<close> loop of \<open>fetchDateRangeChunk\<close>, with the events pushed so
  far. \<open>toISOString\<close> throws a RangeError on an Invalid Date.
\<close>

fun filterPage ::
  "world \<Rightarrow> string \<Rightarrow> string \<Rightarrow> string \<Rightarrow> sentryEvent list \<Rightarrow> minimalEvent list
     \<Rightarrow> error + minimalEvent list" where
  "filterPage w issueType startDate endDate [] allEvents = Inr allEvents"
| "filterPage w issueType startDate endDate (event # rest) allEvents =
     (case js_or (dateCreated event) (dateReceived event) of
        None \<Rightarrow> filterPage w issueType startDate endDate rest allEvents
      | Some eventDate \<Rightarrow>
          if eventDate = [] then filterPage w issueType startDate endDate rest allEvents
          else
            (case newDate w eventDate of
               None \<Rightarrow> Inl RangeError
             | Some eventDateObj \<Rightarrow>
                 if inRange (formatDate eventDateObj) startDate endDate
                 then filterPage w issueType startDate endDate rest
                        (allEvents @ [extractMinimalEventData (now w) event issueType])
                 else filterPage w issueType startDate endDate rest allEvents))"

text \<open>
  The \<open>while (currentUrl)\<close> loop of \<open>fetchDateRangeChunk\<close>, inside its \<open>try\<close>: the result is the
  error that reaches the \<open>catch\<close> or the events, with the requests sent so far. The upstream
  may answer with a next page for ever; then the loop has no result.
\<close>

partial_function (option) fetchPages ::
  "world \<Rightarrow> string \<Rightarrow> string \<Rightarrow> string \<Rightarrow> request \<Rightarrow> minimalEvent list \<Rightarrow> request list
     \<Rightarrow> ((error + minimalEvent list) \<times> request list) option" where
  "fetchPages w issueType startDate endDate currentUrl allEvents sent =
     (case fetchWithPagination w currentUrl of
        Rejected \<Rightarrow> Some (Inl NetworkError, sent @ [currentUrl])
      | NotIterable \<Rightarrow> Some (Inl TypeError, sent @ [currentUrl])
      | Page data link \<Rightarrow>
          (case filterPage w issueType startDate endDate data allEvents of
             Inl e \<Rightarrow> Some (Inl e, sent @ [currentUrl])
           | Inr allEvents' \<Rightarrow>
               (case link of
                  None \<Rightarrow> Some (Inr allEvents', sent @ [currentUrl])
                | Some nextUrl \<Rightarrow>
                    if data = [] then Some (Inr allEvents', sent @ [currentUrl])
                    else fetchPages w issueType startDate endDate (NextPage nextUrl)
                           allEvents' (sent @ [currentUrl]))))"

declare fetchPages.simps [code]

text \<open>
  \<open>fetchDateRangeChunk(issueId, issueName, issueType, startDate, endDate)\<close>: the events of the
  window and the requests it sent (\<open>issueName\<close> is only logged). The \<open>catch\<close> turns every error
  into the empty list.
\<close>

definition fetchDateRangeChunk ::
  "world \<Rightarrow> string \<Rightarrow> string \<Rightarrow> string \<Rightarrow> string
     \<Rightarrow> (minimalEvent list \<times> request list) option" where
  "fetchDateRangeChunk w issueId issueType startDate endDate =
     (case fetchPages w issueType startDate endDate
             (FirstPage issueId (startDate @ ''T00:00:00Z'') (endDate @ ''T23:59:59Z'')) [] [] of
        None \<Rightarrow> None
      | Some (Inr allEvents, sent) \<Rightarrow> Some (allEvents, sent)
      | Some (Inl e, sent) \<Rightarrow> Some ([], sent))"

section \<open>The chunk files\<close>

text \<open>
  The object that \<open>saveChunk\<close> writes. \<open>JSON.stringify\<close> followed by \<open>JSON.parse\<close> gives back an
  object of strings, numbers and arrays unchanged (a property set to \<open>undefined\<close> is left
  out, and reads back as \<open>undefined\<close>), so a file holds the object itself.
\<close>

record chunkData =
  fetchDate :: string
  issueId :: string
  issueName :: string
  dateRangeStart :: string
  dateRangeEnd :: string
  totalEvents :: nat
  events :: "minimalEvent list"

text \<open>
  The content of a file: a chunk object, or anything else (text that \<open>JSON.parse\<close> rejects, or
  a JSON value whose \<open>events\<close> cannot be iterated).
\<close>

datatype fileContent = ChunkJson chunkData | NotChunk

text \<open>
  A directory is the list of its entries in the order in which \<open>readdirSync\<close> lists them,
  each with the content that \<open>readFileSync\<close> reads. The file system maps the path of a
  directory to the directory, \<open>None\<close> when it does not exist.
\<close>

type_synonym directory = "(string \<times> fileContent) list"

type_synonym fileSystem = "string \<Rightarrow> directory option"

definition toLowerCase :: "string \<Rightarrow> string" where
  "toLowerCase s =
     map (\<lambda>c. case map_of (zip ''ABCDEFGHIJKLMNOPQRSTUVWXYZ'' ''abcdefghijklmnopqrstuvwxyz'') c of
                 Some l \<Rightarrow> l | None \<Rightarrow> c) s"

definition isSpace :: "char \<Rightarrow> bool" where
  "isSpace c = (c \<in> set [CHR '' '', CHR 0x09, CHR 0x0A, CHR 0x0B, CHR 0x0C, CHR 0x0D])"

text \<open>\<open>s.replace(/\s+/g, '_')\<close>: every run of white space becomes one underscore.\<close>

function replaceSpaces :: "string \<Rightarrow> string" where
  "replaceSpaces [] = []"
| "replaceSpaces (c # cs) =
     (if isSpace c then CHR ''_'' # replaceSpaces (dropWhile isSpace cs)
      else c # replaceSpaces cs)"
  by pat_completeness auto
termination
  by (relation "measure length") (auto simp: length_dropWhile_le less_Suc_eq_le)

definition RAW_DIR :: string where
  "RAW_DIR = ''data/raw''"

text \<open>\<open>getChunkDir(issueId, issueName)\<close>, the same function in both programs.\<close>

definition getChunkDir :: "string \<Rightarrow> string \<Rightarrow> string" where
  "getChunkDir issue name =
     RAW_DIR @ ''/'' @ replaceSpaces (toLowerCase name) @ ''_'' @ issue"

text \<open>The file name of \<open>getChunkFilename\<close>, inside the chunk directory.\<close>

definition getChunkFilename :: "string \<Rightarrow> string \<Rightarrow> string" where
  "getChunkFilename startDate endDate = startDate @ ''_to_'' @ endDate @ ''.json''"

text \<open>
  The match of a file name against \<open>/^(\d{4}-\d{2}-\d{2})_to_(\d{4}-\d{2}-\d{2})\.json$/\<close>,
  with its two groups.
\<close>

definition matchChunkName :: "string \<Rightarrow> (string \<times> string) option" where
  "matchChunkName f =
     (if length f = 29 \<and> isDateString (take 10 f) \<and> take 4 (drop 10 f) = ''_to_'' \<and>
         isDateString (take 10 (drop 14 f)) \<and> drop 24 f = ''.json''
      then Some (take 10 f, take 10 (drop 14 f)) else None)"

record chunkRef =
  filename :: string
  path :: string
  chunk_start :: string
  chunk_end :: string

text \<open>\<open>loadExistingChunks(issueId, issueName)\<close>.\<close>

definition loadExistingChunks :: "fileSystem \<Rightarrow> string \<Rightarrow> string \<Rightarrow> chunkRef list" where
  "loadExistingChunks fs issue name =
     (let chunkDir = getChunkDir issue name in
      case fs chunkDir of
        None \<Rightarrow> []
      | Some dir \<Rightarrow>
          List.map_filter
            (\<lambda>f. case matchChunkName f of
                   Some (s, e) \<Rightarrow>
                     Some \<lparr>filename = f, path = chunkDir @ ''/'' @ f,
                           chunk_start = s, chunk_end = e\<rparr>
                 | None \<Rightarrow> None)
            (filter (\<lambda>f. endsWith f ''.json'') (map fst dir)))"

text \<open>
  \<open>writeFileSync\<close> in a directory: an existing file keeps its place and gets the new content;
  a new file is listed after the others (where the file system lists a new file is its own
  choice; no property below depends on it).
\<close>

fun writeFile :: "string \<Rightarrow> fileContent \<Rightarrow> directory \<Rightarrow> directory" where
  "writeFile f c [] = [(f, c)]"
| "writeFile f c (entry # dir) =
     (if fst entry = f then (f, c) # dir else entry # writeFile f c dir)"

text \<open>
  \<open>saveChunk(issueId, issueName, startDate, endDate, events)\<close>; \<open>ensureDir\<close> creates the
  directory when it is missing.
\<close>

definition saveChunk ::
  "world \<Rightarrow> fileSystem \<Rightarrow> string \<Rightarrow> string \<Rightarrow> string \<Rightarrow> string \<Rightarrow> minimalEvent list
     \<Rightarrow> fileSystem" where
  "saveChunk w fs issue name startDate endDate evs =
     (let chunkDir = getChunkDir issue name;
          dir = (case fs chunkDir of None \<Rightarrow> [] | Some d \<Rightarrow> d);
          chunk = \<lparr>fetchDate = now w, issueId = issue, issueName = name,
                   dateRangeStart = startDate, dateRangeEnd = endDate,
                   totalEvents = length evs, events = evs\<rparr>
      in fs(chunkDir \<mapsto> writeFile (getChunkFilename startDate endDate) (ChunkJson chunk) dir))"

section \<open>The gap detector and the fetch-and-cache flow\<close>

text \<open>The key \<open>`${start}_to_${end}`\<close> of a window.\<close>

definition rangeKey :: "string \<Rightarrow> string \<Rightarrow> string" where
  "rangeKey s e = s @ ''_to_'' @ e"

text \<open>\<open>existingRanges\<close>: the set of the keys of the chunks on disk.\<close>

definition existingRanges :: "chunkRef list \<Rightarrow> string set" where
  "existingRanges existingChunks =
     set (map (\<lambda>c. rangeKey (chunk_start c) (chunk_end c)) existingChunks)"

text \<open>\<open>missingRanges\<close>: the planned windows whose key is not in the set.\<close>

definition missingRanges :: "dateRange list \<Rightarrow> string set \<Rightarrow> dateRange list" where
  "missingRanges allRanges existing =
     filter (\<lambda>r. rangeKey (range_start r) (range_end r) \<notin> existing) allRanges"

text \<open>
  The \<open>for\<close> loop of \<open>fetchMissingChunks\<close> over the missing windows: the file system after it
  and the requests sent, \<open>None\<close> when a fetch never returns.
\<close>

fun fetchEach ::
  "world \<Rightarrow> string \<Rightarrow> string \<Rightarrow> string \<Rightarrow> dateRange list \<Rightarrow> fileSystem \<Rightarrow> request list
     \<Rightarrow> (fileSystem \<times> request list) option" where
  "fetchEach w issue name issueType [] fs sent = Some (fs, sent)"
| "fetchEach w issue name issueType (rng # rest) fs sent =
     (case fetchDateRangeChunk w issue issueType (range_start rng) (range_end rng) of
        None \<Rightarrow> None
      | Some (evs, reqs) \<Rightarrow>
          fetchEach w issue name issueType rest
            (if length evs > 0
             then saveChunk w fs issue name (range_start rng) (range_end rng) evs
             else saveChunk w fs issue name (range_start rng) (range_end rng) [])
            (sent @ reqs))"

text \<open>
  \<open>allRanges\<close> of \<open>fetchMissingChunks\<close>. An Invalid Date compares false with every date, so the
  loop of \<open>getDateRanges\<close> is not entered when either bound does not parse.
\<close>

definition plannedRanges :: "world \<Rightarrow> string \<Rightarrow> string \<Rightarrow> dateRange list option" where
  "plannedRanges w startDate endDate =
     (case (parseDate w startDate, parseDate w endDate) of
        (Some s, Some e) \<Rightarrow> getDateRanges s e CHUNK_DAYS
      | _ \<Rightarrow> Some [])"

text \<open>
  \<open>fetchMissingChunks(issueId, issueName, issueType, startDate, endDate)\<close>: the file system
  after the run and the requests it sent to the upstream API.
\<close>

definition fetchMissingChunks ::
  "world \<Rightarrow> fileSystem \<Rightarrow> string \<Rightarrow> string \<Rightarrow> string \<Rightarrow> string \<Rightarrow> string
     \<Rightarrow> (fileSystem \<times> request list) option" where
  "fetchMissingChunks w fs issue name issueType startDate endDate =
     (case plannedRanges w startDate endDate of
        None \<Rightarrow> None
      | Some allRanges \<Rightarrow>
          (let existingChunks = loadExistingChunks fs issue name;
               missing = missingRanges allRanges (existingRanges existingChunks)
           in if length missing = 0 then Some (fs, [])
              else fetchEach w issue name issueType missing fs []))"

section \<open>The reader\<close>

text \<open>\<open>event.timestamp.split('T')[0]\<close>.\<close>

definition eventDate :: "minimalEvent \<Rightarrow> string" where
  "eventDate event = takeWhile (\<lambda>c. c \<noteq> CHR ''T'') (timestamp event)"

text \<open>
  The \<open>for (const file of files)\<close> loop of \<open>loadChunksInDateRange\<close>, with the events pushed so
  far. A file that overlaps the range and does not hold a chunk ends the run with the error
  that \<open>JSON.parse\<close> or the iteration throws.
\<close>

fun loadChunkFiles ::
  "string \<Rightarrow> string \<Rightarrow> directory \<Rightarrow> minimalEvent list \<Rightarrow> error + minimalEvent list" where
  "loadChunkFiles startDate endDate [] allEvents = Inr allEvents"
| "loadChunkFiles startDate endDate (file # files) allEvents =
     (case matchChunkName (fst file) of
        None \<Rightarrow> loadChunkFiles startDate endDate files allEvents
      | Some (chunkStart, chunkEnd) \<Rightarrow>
          if chunkEnd \<ge> startDate \<and> chunkStart \<le> endDate then
            (case snd file of
               NotChunk \<Rightarrow> Inl SyntaxError
             | ChunkJson chunk \<Rightarrow>
                 loadChunkFiles startDate endDate files
                   (allEvents @
                    filter (\<lambda>event. inRange (eventDate event) startDate endDate) (events chunk)))
          else loadChunkFiles startDate endDate files allEvents)"

text \<open>\<open>loadChunksInDateRange(issueId, issueName, startDate, endDate)\<close>.\<close>

definition loadChunksInDateRange ::
  "fileSystem \<Rightarrow> string \<Rightarrow> string \<Rightarrow> string \<Rightarrow> string \<Rightarrow> error + minimalEvent list" where
  "loadChunksInDateRange fs issue name startDate endDate =
     (case fs (getChunkDir issue name) of
        None \<Rightarrow> Inr []
      | Some dir \<Rightarrow>
          loadChunkFiles startDate endDate (filter (\<lambda>file. endsWith (fst file) ''.json'') dir) [])"

section \<open>The payment-error aggregator\<close>






text \<open>
  The order of \<open>Object.entries\<close>: the keys that are array indices (canonical decimal numerals
  up to 2^32 - 2) come first, in ascending numeric order, then the other keys in the order
  of their creation.
\<close>

definition indexValue :: "string \<Rightarrow> int" where
  "indexValue s = foldl (\<lambda>n c. 10 * n + (of_char c - 48)) 0 s"





section \<open>Definitions used to state the properties\<close>

text \<open>
  The windows of \<open>chunkDays\<close> days each that start at \<open>startDate\<close>, as pairs of first and last
  day: the \<open>i\<close>-th window starts \<open>i * chunkDays\<close> days after \<open>startDate\<close>.
\<close>

definition exact_windows :: "Date \<Rightarrow> int \<Rightarrow> nat \<Rightarrow> (Date \<times> Date) list" where
  "exact_windows startDate chunkDays k =
     map (\<lambda>i. (startDate + int i * chunkDays, startDate + int i * chunkDays + (chunkDays - 1)))
       [0..<k]"

text \<open>The window that \<open>getDateRanges\<close> pushes for a first and a last day.\<close>

definition formatRange :: "Date \<times> Date \<Rightarrow> dateRange" where
  "formatRange w = \<lparr>range_start = formatDate (fst w), range_end = formatDate (snd w)\<rparr>"

text \<open>An event whose user has only an IP address, and one whose user has no field at all.\<close>

definition ipOnlyEvent :: sentryEvent where
  "ipOnlyEvent =
     \<lparr>user = Some \<lparr>user_id = None, email = None, ip_address = Some ''1.2.3.4''\<rparr>,
      dateCreated = Some ''2025-09-10T08:30:00Z'', dateReceived = None,
      event_id = Some ''e1'', eventID = None, tags = []\<rparr>"


text \<open>The directory at a path, empty when it does not exist.\<close>

definition dirOf :: "fileSystem \<Rightarrow> string \<Rightarrow> directory" where
  "dirOf fs p = (case fs p of None \<Rightarrow> [] | Some d \<Rightarrow> d)"

text \<open>
  An upstream event passes the date test of \<open>fetchDateRangeChunk\<close> for a window: it has a
  truthy \<open>dateCreated\<close> or \<open>dateReceived\<close>, the date parses, and its UTC day lies within the
  bounds of the window.
\<close>

definition keptByFilter :: "world \<Rightarrow> string \<Rightarrow> string \<Rightarrow> sentryEvent \<Rightarrow> bool" where
  "keptByFilter w startDate endDate event =
     (case js_or (dateCreated event) (dateReceived event) of
        None \<Rightarrow> False
      | Some d \<Rightarrow>
          d \<noteq> [] \<and>
          (case newDate w d of
             None \<Rightarrow> False
           | Some day \<Rightarrow> inRange (formatDate day) startDate endDate))"

text \<open>
  A minimal event record comes from a page received for a request of \<open>reqs\<close>: it is the
  extract of an event of that page that passes the date test of the window.
\<close>

definition fromPages ::
  "world \<Rightarrow> string \<Rightarrow> string \<Rightarrow> string \<Rightarrow> request list \<Rightarrow> minimalEvent \<Rightarrow> bool" where
  "fromPages w issueType startDate endDate reqs m =
     (\<exists>q \<in> set reqs.
        case fetchWithPagination w q of
          Page data link \<Rightarrow>
            (\<exists>event \<in> set data.
               keptByFilter w startDate endDate event \<and>
               m = extractMinimalEventData (now w) event issueType)
        | _ \<Rightarrow> False)"

text \<open>
  A reading of \<open>new Date(s)\<close> for the ISO strings that the programs build and the upstream
  sends (a valid date \<open>YYYY-MM-DD\<close> followed by \<open>T\<close> and a UTC time): the day of the date part.
  It is the runtime of the concrete runs below.
\<close>

definition isoDay :: "string \<Rightarrow> Date option" where
  "isoDay s =
     (if isDateString (take 10 s) \<and> take 1 (drop 10 s) = ''T'' then
        (let y = indexValue (take 4 s);
             m = indexValue (take 2 (drop 5 s));
             d = indexValue (take 2 (drop 8 s));
             day = days_from_civil y m d
         in if civil_from_days day = (y, m, d) then Some day else None)
      else None)"

text \<open>An event without \<open>dateCreated\<close> and \<open>dateReceived\<close>.\<close>

definition undatedEvent :: sentryEvent where
  "undatedEvent =
     \<lparr>user = Some \<lparr>user_id = Some ''u7'', email = None, ip_address = None\<rparr>,
      dateCreated = None, dateReceived = None,
      event_id = Some ''e3'', eventID = None, tags = []\<rparr>"

text \<open>
  An upstream that answers the first request of every window with one page, holding an
  event of 2025-09-10 and an event without a date, and no next page.
\<close>

definition onePageWorld :: world where
  "onePageWorld =
     \<lparr>newDate = isoDay, now = ''2025-10-09T12:00:00.000Z'',
      fetchWithPagination =
        (\<lambda>q. case q of FirstPage i s e \<Rightarrow> Page [ipOnlyEvent, undatedEvent] None
                      | NextPage u \<Rightarrow> Page [] None)\<rparr>"

text \<open>The file system without any directory.\<close>

definition emptyDisk :: fileSystem where
  "emptyDisk = (\<lambda>p. None)"

text \<open>
  The windows persisted on disk for an issue: the pairs of start and end date string of the
  chunks that \<open>loadExistingChunks\<close> finds.
\<close>

definition chunkPairs :: "fileSystem \<Rightarrow> string \<Rightarrow> string \<Rightarrow> (string \<times> string) set" where
  "chunkPairs fs issue name =
     (\<lambda>c. (chunk_start c, chunk_end c)) ` set (loadExistingChunks fs issue name)"

text \<open>
  A disk with two chunks of seven days for the payment errors, 2025-09-09 to 2025-09-15 and
  2025-09-16 to 2025-09-22, and a file that is not a chunk.
\<close>

definition emptyChunk :: "string \<Rightarrow> string \<Rightarrow> fileContent" where
  "emptyChunk s e =
     ChunkJson \<lparr>fetchDate = ''2025-10-01T06:00:00.000Z'', issueId = ''6722248692'',
                issueName = ''Payment Error'', dateRangeStart = s, dateRangeEnd = e,
                totalEvents = 0, events = []\<rparr>"

definition weeklyDisk :: fileSystem where
  "weeklyDisk =
     emptyDisk(''data/raw/payment_error_6722248692'' \<mapsto>
       [(''2025-09-09_to_2025-09-15.json'', emptyChunk ''2025-09-09'' ''2025-09-15''),
        (''2025-09-16_to_2025-09-22.json'', emptyChunk ''2025-09-16'' ''2025-09-22''),
        (''notes.json'', NotChunk)])"

text \<open>An upstream that rejects every request.\<close>

definition failingWorld :: world where
  "failingWorld =
     \<lparr>newDate = isoDay, now = ''2025-10-09T12:00:00.000Z'',
      fetchWithPagination = (\<lambda>q. Rejected)\<rparr>"

text \<open>
  The entries of a directory that are chunk files whose window, read from the file name,
  overlaps the requested range.
\<close>

definition overlapping :: "string \<Rightarrow> string \<Rightarrow> directory \<Rightarrow> directory" where
  "overlapping startDate endDate dir =
     filter (\<lambda>entry. case matchChunkName (fst entry) of
                       None \<Rightarrow> False
                     | Some (chunkStart, chunkEnd) \<Rightarrow>
                         chunkEnd \<ge> startDate \<and> chunkStart \<le> endDate)
       dir"

text \<open>The events of a chunk file whose date lies within the requested range, in their order.\<close>

definition eventsInRange :: "string \<Rightarrow> string \<Rightarrow> fileContent \<Rightarrow> minimalEvent list" where
  "eventsInRange startDate endDate content =
     (case content of
        ChunkJson chunk \<Rightarrow>
          filter (\<lambda>event. inRange (eventDate event) startDate endDate) (events chunk)
      | NotChunk \<Rightarrow> [])"

text \<open>The start date in the name of a chunk file.\<close>

definition chunkStartOf :: "string \<times> fileContent \<Rightarrow> string" where
  "chunkStartOf entry = take 10 (fst entry)"

text \<open>A minimal event record with a timestamp, a user and an error reason.\<close>

definition errorEvent :: "string \<Rightarrow> string \<Rightarrow> string \<Rightarrow> minimalEvent" where
  "errorEvent ts uid r =
     \<lparr>timestamp = ts, eventId = None, userId = uid, paymentErrorReason = Some r,
      merchant_id = None, customerId = None, storeState = None, storeId = None\<rparr>"

text \<open>A chunk of the payment errors with the given window and events.\<close>

definition chunkOf :: "string \<Rightarrow> string \<Rightarrow> minimalEvent list \<Rightarrow> fileContent" where
  "chunkOf s e evs =
     ChunkJson \<lparr>fetchDate = ''2025-10-01T06:00:00.000Z'', issueId = ''6722248692'',
                issueName = ''Payment Error'', dateRangeStart = s, dateRangeEnd = e,
                totalEvents = length evs, events = evs\<rparr>"

text \<open>
  Two chunks of seven days with two events each, listed by name, after a file that is not a
  chunk; and the same two chunks listed with the later one first.
\<close>

definition sortedDisk :: fileSystem where
  "sortedDisk =
     emptyDisk(''data/raw/payment_error_6722248692'' \<mapsto>
       [(''.notes.json'', NotChunk),
        (''2025-09-09_to_2025-09-15.json'',
           chunkOf ''2025-09-09'' ''2025-09-15''
             [errorEvent ''2025-09-10T08:00:00Z'' ''u1'' ''Insufficient Funds'',
              errorEvent ''2025-09-13T09:00:00Z'' ''u2'' ''Insufficient Funds'']),
        (''2025-09-16_to_2025-09-22.json'',
           chunkOf ''2025-09-16'' ''2025-09-22''
             [errorEvent ''2025-09-17T10:00:00Z'' ''u3'' ''Insufficient Funds'',
              errorEvent ''2025-09-20T11:00:00Z'' ''u1'' ''Insufficient Funds''])])"

definition unsortedDisk :: fileSystem where
  "unsortedDisk =
     emptyDisk(''data/raw/payment_error_6722248692'' \<mapsto>
       [(''2025-09-16_to_2025-09-22.json'',
           chunkOf ''2025-09-16'' ''2025-09-22''
             [errorEvent ''2025-09-17T10:00:00Z'' ''u3'' ''Insufficient Funds'']),
        (''2025-09-09_to_2025-09-15.json'',
           chunkOf ''2025-09-09'' ''2025-09-15''
             [errorEvent ''2025-09-10T08:00:00Z'' ''u1'' ''Insufficient Funds''])])"









text \<open>
  A reading of \<open>new Date(s)\<close> that also takes the expanded years of ISO strings, a sign and
  six digits (\<open>+010000-01-02T00:00:00Z\<close>), and an upstream whose pages are empty.
\<close>

definition isoDayExpanded :: "string \<Rightarrow> Date option" where
  "isoDayExpanded s =
     (case s of
        [] \<Rightarrow> None
      | c # rest \<Rightarrow>
          if (c = CHR ''+'' \<or> c = CHR ''-'') \<and> length (take 6 rest) = 6 \<and>
             list_all isDigit (take 6 rest) \<and> isDateString (''0000'' @ take 6 (drop 6 rest)) \<and>
             take 1 (drop 12 rest) = ''T''
          then
            (let y = (if c = CHR ''-'' then - indexValue (take 6 rest)
                      else indexValue (take 6 rest));
                 m = indexValue (take 2 (drop 7 rest));
                 d = indexValue (take 2 (drop 10 rest));
                 day = days_from_civil y m d
             in if civil_from_days day = (y, m, d) then Some day else None)
          else isoDay s)"

definition expandedYearWorld :: world where
  "expandedYearWorld =
     \<lparr>newDate = isoDayExpanded, now = ''2025-10-09T12:00:00.000Z'',
      fetchWithPagination = (\<lambda>q. Page [] None)\<rparr>"

section \<open>The window planner: properties\<close>

lemma exact_windows_Suc:
  "exact_windows s d (Suc k) = (s, s + (d - 1)) # exact_windows (s + d) d k"
proof -
  have "[0..<Suc k] = 0 # map Suc [0..<k]"
    by (simp add: upt_conv_Cons map_Suc_upt del: upt_Suc)
  then show ?thesis
    by (simp add: exact_windows_def comp_def algebra_simps del: upt_Suc)
qed

lemma exact_windows_nth:
  "i < k \<Longrightarrow> exact_windows s d k ! i = (s + int i * d, s + int i * d + (d - 1))"
  by (simp add: exact_windows_def)

text \<open>The loop on a range that is \<open>k\<close> whole windows long.\<close>

lemma getDateRanges_loop_exact:
  "1 \<le> d \<Longrightarrow>
   getDateRanges_loop s (s + int k * d) d acc = Some (acc @ map formatRange (exact_windows s d k))"
proof (induction k arbitrary: s acc)
  case 0
  then show ?case
    by (subst getDateRanges_loop.simps) (simp add: exact_windows_def)
next
  case (Suc k)
  define m where "m = int k * d"
  have pos: "0 \<le> m" using Suc.prems by (simp add: m_def)
  have next_eq: "s + int (Suc k) * d = (s + d) + int k * d"
    by (simp add: algebra_simps)
  have lt: "s < s + int (Suc k) * d"
    unfolding next_eq using Suc.prems pos by (simp add: m_def [symmetric])
  have le: "\<not> s + (d - 1) > s + int (Suc k) * d"
    unfolding next_eq using Suc.prems pos by (simp add: m_def [symmetric])
  have "getDateRanges_loop s (s + int (Suc k) * d) d acc =
        getDateRanges_loop (s + d) (s + int (Suc k) * d) d (acc @ [formatRange (s, s + (d - 1))])"
    using lt le
    by (subst getDateRanges_loop.simps) (simp add: addDays_def formatRange_def Let_def)
  also have "\<dots> =
      Some ((acc @ [formatRange (s, s + (d - 1))]) @ map formatRange (exact_windows (s + d) d k))"
    unfolding next_eq using Suc.prems by (rule Suc.IH)
  finally show ?case
    by (simp add: exact_windows_Suc)
qed

text \<open>The days of \<open>k\<close> whole windows: every day from the start up to the day before the end.\<close>

lemma exact_windows_days:
  "1 \<le> d \<Longrightarrow> (\<Union>w \<in> set (exact_windows s d k). {fst w .. snd w}) = {s ..< s + int k * d}"
proof (induction k arbitrary: s)
  case 0
  then show ?case by (simp add: exact_windows_def)
next
  case (Suc k)
  define m where "m = int k * d"
  have pos: "0 \<le> m" using Suc.prems by (simp add: m_def)
  have next_eq: "s + int (Suc k) * d = (s + d) + m"
    by (simp add: algebra_simps m_def)
  have "(\<Union>w \<in> set (exact_windows s d (Suc k)). {fst w .. snd w}) =
        {s .. s + (d - 1)} \<union> {s + d ..< (s + d) + m}"
    using Suc.IH [OF Suc.prems, of "s + d"] by (simp add: exact_windows_Suc m_def)
  also have "\<dots> = {s ..< s + int (Suc k) * d}"
    unfolding next_eq using Suc.prems pos by auto
  finally show ?case .
qed

text \<open>
  The planner on 2025-09-09 to 2025-10-09 with windows of 7 days: five windows, the last one
  truncated to the end date.
\<close>

lemma getDateRanges_truncated_last_window:
  "getDateRanges (days_from_civil 2025 9 9) (days_from_civil 2025 10 9) 7 =
     Some [\<lparr>range_start = ''2025-09-09'', range_end = ''2025-09-15''\<rparr>,
           \<lparr>range_start = ''2025-09-16'', range_end = ''2025-09-22''\<rparr>,
           \<lparr>range_start = ''2025-09-23'', range_end = ''2025-09-29''\<rparr>,
           \<lparr>range_start = ''2025-09-30'', range_end = ''2025-10-06''\<rparr>,
           \<lparr>range_start = ''2025-10-07'', range_end = ''2025-10-09''\<rparr>]"
  by code_simp

text \<open>
  Claim C2, as the code has it. When the end date is \<open>k\<close> times \<open>d\<close> days after the start date
  (\<open>d\<close> at least one day), \<open>getDateRanges\<close> returns exactly \<open>k\<close> windows: the formatted bounds of
  \<open>exact_windows\<close>. Each window spans exactly \<open>d\<close> days, an earlier window ends before a later
  one starts, every window lies within the requested range, and together the windows hold
  every day from the start date up to the day before the end date.
\<close>

theorem getDateRanges_exact_multiple:
  assumes "1 \<le> d" and "endDate = startDate + int k * d"
  shows "getDateRanges startDate endDate d = Some (map formatRange (exact_windows startDate d k))
       \<and> length (exact_windows startDate d k) = k
       \<and> (\<forall>w \<in> set (exact_windows startDate d k). snd w - fst w + 1 = d)
       \<and> (\<forall>i j. i < j \<and> j < k \<longrightarrow>
             snd (exact_windows startDate d k ! i) < fst (exact_windows startDate d k ! j))
       \<and> (\<forall>w \<in> set (exact_windows startDate d k). startDate \<le> fst w \<and> snd w \<le> endDate)
       \<and> {startDate ..< endDate} \<subseteq> (\<Union>w \<in> set (exact_windows startDate d k). {fst w .. snd w})"
proof -
  have a: "getDateRanges startDate endDate d = Some (map formatRange (exact_windows startDate d k))"
    using getDateRanges_loop_exact [OF assms(1), of startDate k "[]"] assms(2)
    by (simp add: getDateRanges_def)
  have b: "length (exact_windows startDate d k) = k"
    by (simp add: exact_windows_def)
  have c: "\<forall>w \<in> set (exact_windows startDate d k). snd w - fst w + 1 = d"
    by (auto simp: exact_windows_def)
  have d: "\<forall>i j. i < j \<and> j < k \<longrightarrow>
             snd (exact_windows startDate d k ! i) < fst (exact_windows startDate d k ! j)"
  proof (intro allI impI)
    fix i j assume ij: "i < j \<and> j < k"
    then have "int (Suc i) * d \<le> int j * d"
      using assms(1) by (intro mult_right_mono) auto
    then show "snd (exact_windows startDate d k ! i) < fst (exact_windows startDate d k ! j)"
      using ij by (simp add: exact_windows_nth algebra_simps)
  qed
  have days: "(\<Union>w \<in> set (exact_windows startDate d k). {fst w .. snd w}) = {startDate ..< endDate}"
    using exact_windows_days [OF assms(1)] assms(2) by simp
  have e: "\<forall>w \<in> set (exact_windows startDate d k). startDate \<le> fst w \<and> snd w \<le> endDate"
  proof
    fix w assume w: "w \<in> set (exact_windows startDate d k)"
    with c assms(1) have "fst w \<le> snd w" by force
    then have "fst w \<in> {fst w .. snd w}" "snd w \<in> {fst w .. snd w}" by simp_all
    with w have "fst w \<in> {startDate ..< endDate}" "snd w \<in> {startDate ..< endDate}"
      unfolding days [symmetric] by blast+
    then show "startDate \<le> fst w \<and> snd w \<le> endDate" by simp
  qed
  have f: "{startDate ..< endDate} \<subseteq> (\<Union>w \<in> set (exact_windows startDate d k). {fst w .. snd w})"
    unfolding days by simp
  from a b c d e f show ?thesis by blast
qed

text \<open>
  The theorem at 2025-09-09 to 2025-10-07 (day numbers 20340 and 20368) with windows of 7
  days: four windows, the last one ending on 2025-10-06.
\<close>

theorem getDateRanges_exact_multiple_witness:
  "getDateRanges 20340 20368 7 =
     Some [\<lparr>range_start = ''2025-09-09'', range_end = ''2025-09-15''\<rparr>,
           \<lparr>range_start = ''2025-09-16'', range_end = ''2025-09-22''\<rparr>,
           \<lparr>range_start = ''2025-09-23'', range_end = ''2025-09-29''\<rparr>,
           \<lparr>range_start = ''2025-09-30'', range_end = ''2025-10-06''\<rparr>]
   \<and> exact_windows 20340 7 4 = [(20340, 20346), (20347, 20353), (20354, 20360), (20361, 20367)]
   \<and> {20340 ..< 20368} \<subseteq> (\<Union>w \<in> set (exact_windows 20340 7 4). {fst w .. snd w})"
proof -
  have h1: "(1::int) \<le> 7" by simp
  have h2: "(20368::int) = 20340 + int 4 * 7" by simp
  have w: "exact_windows 20340 7 4 =
      [(20340, 20346), (20347, 20353), (20354, 20360), (20361, 20367)]"
    by code_simp
  have f: "map formatRange [(20340, 20346), (20347, 20353), (20354, 20360), (20361, 20367)] =
     [\<lparr>range_start = ''2025-09-09'', range_end = ''2025-09-15''\<rparr>,
      \<lparr>range_start = ''2025-09-16'', range_end = ''2025-09-22''\<rparr>,
      \<lparr>range_start = ''2025-09-23'', range_end = ''2025-09-29''\<rparr>,
      \<lparr>range_start = ''2025-09-30'', range_end = ''2025-10-06''\<rparr>]"
    by code_simp
  note r = getDateRanges_exact_multiple [OF h1 h2]
  have g: "getDateRanges 20340 20368 7 = Some (map formatRange (exact_windows 20340 7 4))"
    using r by (rule conjunct1)
  have u: "{20340 ..< 20368} \<subseteq> (\<Union>w \<in> set (exact_windows 20340 7 4). {fst w .. snd w})"
    using r by blast
  show ?thesis
    using g u w f by (simp only: simp_thms)
qed

text \<open>
  Claim C2 as it is written fails. From 2025-09-09 to 2025-09-16 is exactly one window of 7
  days; the planner returns the single window 2025-09-09 to 2025-09-15, and the end date
  2025-09-16 lies in no window.
\<close>

theorem getDateRanges_end_day_uncovered:
  "getDateRanges (days_from_civil 2025 9 9) (days_from_civil 2025 9 16) 7 =
     Some [\<lparr>range_start = ''2025-09-09'', range_end = ''2025-09-15''\<rparr>]
   \<and> days_from_civil 2025 9 16 - days_from_civil 2025 9 9 = 1 * 7
   \<and> \<not> inRange (formatDate (days_from_civil 2025 9 16)) ''2025-09-09'' ''2025-09-15''"
  by code_simp

text \<open>
  Claim C7, as the code has it. For a range of a single day (the start date equal to the
  end date) the loop condition \<open>currentStart < endDate\<close> is false at once and \<open>getDateRanges\<close>
  returns the empty sequence, no window at all, whatever the chunk size.
\<close>

theorem getDateRanges_single_day_empty:
  "getDateRanges day day chunkDays = Some []"
  unfolding getDateRanges_def by (subst getDateRanges_loop.simps) simp

text \<open>
  Claim C7 as it is written fails: for the single day 2025-09-09, with the chunk size of
  \<open>fetch_payment_data.js\<close>, the planner returns no window, not one window of one day.
\<close>

theorem getDateRanges_single_day_no_window:
  "getDateRanges (days_from_civil 2025 9 9) (days_from_civil 2025 9 9) CHUNK_DAYS = Some []
 \<and> formatDate (days_from_civil 2025 9 9) = ''2025-09-09''"
  by code_simp

section \<open>The minimal event record: properties\<close>






section \<open>The fetcher and the chunk files: properties\<close>

text \<open>What the loop over a page pushes: the extracts of the events that pass the date test.\<close>

lemma filterPage_Inr:
  "filterPage w t s e data acc = Inr out \<Longrightarrow>
   out = acc @ map (\<lambda>event. extractMinimalEventData (now w) event t) (filter (keptByFilter w s e) data)"
proof (induction data arbitrary: acc)
  case Nil
  then show ?case by simp
next
  case (Cons event rest)
  show ?case
  proof (cases "keptByFilter w s e event")
    case True
    then have "filterPage w t s e (event # rest) acc =
               filterPage w t s e rest (acc @ [extractMinimalEventData (now w) event t])"
      by (auto simp: keptByFilter_def split: option.splits)
    with Cons.prems
    have "out = (acc @ [extractMinimalEventData (now w) event t]) @
                map (\<lambda>event. extractMinimalEventData (now w) event t)
                  (filter (keptByFilter w s e) rest)"
      by (intro Cons.IH) simp
    with True show ?thesis by simp
  next
    case False
    with Cons.prems have "filterPage w t s e rest acc = Inr out"
      by (auto simp: keptByFilter_def split: option.splits if_splits)
    then have "out = acc @ map (\<lambda>event. extractMinimalEventData (now w) event t)
                  (filter (keptByFilter w s e) rest)"
      by (rule Cons.IH)
    with False show ?thesis by simp
  qed
qed

text \<open>An event without a truthy date is passed over.\<close>

lemma filterPage_skip:
  "\<not> truthy (dateCreated event) \<Longrightarrow> \<not> truthy (dateReceived event) \<Longrightarrow>
   filterPage w t s e (event # rest) acc = filterPage w t s e rest acc"
  by (cases "dateReceived event") (simp_all add: js_or_def)

lemma filterPage_undated:
  "\<not> truthy (dateCreated event) \<Longrightarrow> \<not> truthy (dateReceived event) \<Longrightarrow>
   filterPage w t s e (pre @ event # post) acc = filterPage w t s e (pre @ post) acc"
proof (induction pre arbitrary: acc)
  case Nil
  show ?case unfolding append_Nil by (rule filterPage_skip) fact+
next
  case (Cons x pre)
  then show ?case
    by (simp split: option.splits)
qed

lemma fromPages_mono:
  "fromPages w t s e reqs m \<Longrightarrow> set reqs \<subseteq> set reqs' \<Longrightarrow> fromPages w t s e reqs' m"
  unfolding fromPages_def by blast

text \<open>Every event that the page loop returns comes from a page it received.\<close>

lemma fetchPages_fromPages:
  "fetchPages w t s e url acc sent = Some y \<Longrightarrow>
   \<forall>out sent'. y = (Inr out, sent') \<longrightarrow> (\<forall>m \<in> set acc. fromPages w t s e sent m) \<longrightarrow>
      (\<forall>m \<in> set out. fromPages w t s e sent' m)"
proof (induction rule: fetchPages.raw_induct [rotated 1, consumes 1])
  case (1 fetchPages' w t s e url acc sent y)
  show ?case
  proof (intro allI impI)
    fix out sent'
    assume y: "y = (Inr out, sent')" and accs: "\<forall>m \<in> set acc. fromPages w t s e sent m"
    from 1(2) y obtain data link where resp: "fetchWithPagination w url = Page data link"
      by (cases "fetchWithPagination w url") auto
    from 1(2) y resp obtain all' where fp: "filterPage w t s e data acc = Inr all'"
      by (cases "filterPage w t s e data acc") auto
    have all': "all' = acc @ map (\<lambda>event. extractMinimalEventData (now w) event t)
                                (filter (keptByFilter w s e) data)"
      using fp by (rule filterPage_Inr)
    have new: "\<forall>m \<in> set all'. fromPages w t s e (sent @ [url]) m"
    proof
      fix m assume "m \<in> set all'"
      then consider "m \<in> set acc"
        | event where "event \<in> set data" "keptByFilter w s e event"
                      "m = extractMinimalEventData (now w) event t"
        unfolding all' by auto
      then show "fromPages w t s e (sent @ [url]) m"
      proof cases
        case 1
        with accs show ?thesis by (auto intro: fromPages_mono)
      next
        case 2
        then show ?thesis unfolding fromPages_def using resp by auto
      qed
    qed
    show "\<forall>m \<in> set out. fromPages w t s e sent' m"
    proof (cases "link = None \<or> data = []")
      case True
      with 1(2) y resp fp have "out = all'" "sent' = sent @ [url]"
        by (auto split: option.splits)
      with new show ?thesis by simp
    next
      case False
      then obtain nextUrl where link: "link = Some nextUrl" and ne: "data \<noteq> []" by auto
      from 1(2) resp fp link ne
      have "fetchPages' w t s e (NextPage nextUrl) all' (sent @ [url]) = Some y" by simp
      from 1(1) [OF this] y new show ?thesis by blast
    qed
  qed
qed

lemma fetchDateRangeChunk_fromPages:
  assumes "fetchDateRangeChunk w issue t s e = Some (evs, reqs)"
  shows "\<forall>m \<in> set evs. fromPages w t s e reqs m"
proof -
  let ?first = "FirstPage issue (s @ ''T00:00:00Z'') (e @ ''T23:59:59Z'')"
  from assms obtain y where y: "fetchPages w t s e ?first [] [] = Some y"
    by (auto simp: fetchDateRangeChunk_def split: option.splits)
  show ?thesis
  proof (cases "fst y")
    case (Inl err)
    with assms y have "evs = []"
      by (cases y) (auto simp: fetchDateRangeChunk_def)
    then show ?thesis by simp
  next
    case (Inr out)
    with assms y have "y = (Inr evs, reqs)"
      by (cases y) (auto simp: fetchDateRangeChunk_def)
    with fetchPages_fromPages [OF y] show ?thesis by simp
  qed
qed

text \<open>Writing a file changes that file only.\<close>

lemma set_writeFile:
  "x \<in> set (writeFile f c dir) \<Longrightarrow> x = (f, c) \<or> x \<in> set dir"
  by (induction dir) (auto split: if_splits)

lemma names_writeFile:
  "fst ` set (writeFile f c dir) = insert f (fst ` set dir)"
  by (induction dir) auto

lemma dirOf_saveChunk:
  "dirOf (saveChunk w fs issue name s e evs) (getChunkDir issue name) =
     writeFile (getChunkFilename s e)
       (ChunkJson \<lparr>fetchDate = now w, issueId = issue, issueName = name,
                   dateRangeStart = s, dateRangeEnd = e,
                   totalEvents = length evs, events = evs\<rparr>)
       (dirOf fs (getChunkDir issue name))"
  by (simp add: saveChunk_def dirOf_def Let_def)

text \<open>Both branches of \<open>if (events.length > 0)\<close> save the events that were fetched.\<close>

lemma saveChunk_branches:
  "(if length evs > 0 then saveChunk w fs issue name s e evs
    else saveChunk w fs issue name s e []) = saveChunk w fs issue name s e evs"
  by simp

text \<open>
  After the loop over the missing windows every file of the chunk directory is a file that
  was there before or a chunk whose events come from the pages of this run.
\<close>

lemma fetchEach_stored:
  "fetchEach w issue name t ranges fs sent = Some (fs', sent') \<Longrightarrow>
   set sent \<subseteq> set sent' \<and>
   (\<forall>file \<in> set (dirOf fs' (getChunkDir issue name)).
      file \<in> set (dirOf fs (getChunkDir issue name)) \<or>
      (\<exists>c. snd file = ChunkJson c \<and>
           (\<forall>m \<in> set (events c). fromPages w t (dateRangeStart c) (dateRangeEnd c) sent' m)))"
proof (induction ranges arbitrary: fs sent)
  case Nil
  then show ?case by simp
next
  case (Cons rng rest)
  let ?D = "getChunkDir issue name"
  from Cons.prems obtain evs reqs where
    fetch: "fetchDateRangeChunk w issue t (range_start rng) (range_end rng) = Some (evs, reqs)"
    by (auto split: option.splits)
  let ?fs1 = "saveChunk w fs issue name (range_start rng) (range_end rng) evs"
  from Cons.prems fetch
  have rest: "fetchEach w issue name t rest ?fs1 (sent @ reqs) = Some (fs', sent')"
    by (simp only: fetchEach.simps option.case prod.case saveChunk_branches)
  note ih = Cons.IH [OF rest]
  from ih have sub: "set (sent @ reqs) \<subseteq> set sent'" by blast
  have good: "\<forall>m \<in> set evs. fromPages w t (range_start rng) (range_end rng) sent' m"
    using fetchDateRangeChunk_fromPages [OF fetch] sub
    by (auto intro: fromPages_mono)
  show ?case
  proof (intro conjI ballI)
    show "set sent \<subseteq> set sent'" using sub by auto
  next
    fix entry :: "string \<times> fileContent" assume "entry \<in> set (dirOf fs' ?D)"
    with ih consider "entry \<in> set (dirOf ?fs1 ?D)"
      | c where "snd entry = ChunkJson c"
          "\<forall>m \<in> set (events c). fromPages w t (dateRangeStart c) (dateRangeEnd c) sent' m"
      by blast
    then show "entry \<in> set (dirOf fs ?D) \<or>
      (\<exists>c. snd entry = ChunkJson c \<and>
           (\<forall>m \<in> set (events c). fromPages w t (dateRangeStart c) (dateRangeEnd c) sent' m))"
    proof cases
      case 1
      then have "snd entry = ChunkJson \<lparr>fetchDate = now w, issueId = issue, issueName = name,
                   dateRangeStart = range_start rng, dateRangeEnd = range_end rng,
                   totalEvents = length evs, events = evs\<rparr> \<or> entry \<in> set (dirOf fs ?D)"
        unfolding dirOf_saveChunk by (auto dest: set_writeFile)
      with good show ?thesis by auto
    next
      case 2
      then show ?thesis by blast
    qed
  qed
qed

text \<open>
  Claim C10. An event of a page that has neither a \<open>dateCreated\<close> nor a \<open>dateReceived\<close>
  (absent or empty) is passed over without an error: the page gives the same result with
  and without it. And after a run of \<open>fetchMissingChunks\<close> every file of the chunk directory
  is a file that was there before the run, or a chunk in which every stored event is the
  extract of an event of a received page that has a date, whose day was compared against
  the bounds of the chunk's window and lies within them (\<open>fromPages\<close>, \<open>keptByFilter\<close>).
\<close>

theorem undated_events_never_stored:
  "(\<not> truthy (dateCreated event) \<and> \<not> truthy (dateReceived event) \<longrightarrow>
      filterPage w t s e (pre @ event # post) acc = filterPage w t s e (pre @ post) acc)
 \<and> (fetchMissingChunks w fs issue name t startDate endDate = Some (fs', reqs) \<longrightarrow>
      (\<forall>file \<in> set (dirOf fs' (getChunkDir issue name)).
         file \<in> set (dirOf fs (getChunkDir issue name)) \<or>
         (\<exists>c. snd file = ChunkJson c \<and>
              (\<forall>m \<in> set (events c).
                 fromPages w t (dateRangeStart c) (dateRangeEnd c) reqs m))))"
proof (intro conjI impI)
  assume "\<not> truthy (dateCreated event) \<and> \<not> truthy (dateReceived event)"
  then show "filterPage w t s e (pre @ event # post) acc = filterPage w t s e (pre @ post) acc"
    by (simp add: filterPage_undated)
next
  assume run: "fetchMissingChunks w fs issue name t startDate endDate = Some (fs', reqs)"
  then obtain allRanges where "plannedRanges w startDate endDate = Some allRanges"
    by (auto simp: fetchMissingChunks_def split: option.splits)
  with run consider "fs' = fs" | missing where "fetchEach w issue name t missing fs [] = Some (fs', reqs)"
    by (auto simp: fetchMissingChunks_def Let_def split: if_splits)
  then show "\<forall>file \<in> set (dirOf fs' (getChunkDir issue name)).
         file \<in> set (dirOf fs (getChunkDir issue name)) \<or>
         (\<exists>c. snd file = ChunkJson c \<and>
              (\<forall>m \<in> set (events c).
                 fromPages w t (dateRangeStart c) (dateRangeEnd c) reqs m))"
  proof cases
    case 1
    then show ?thesis by simp
  next
    case 2
    from fetchEach_stored [OF 2] show ?thesis by blast
  qed
qed

text \<open>
  The run on an empty disk against an upstream whose page holds one dated event and one
  event without a date: the chunk that is saved holds the dated event only.
\<close>

theorem undated_events_never_stored_witness:
  "filterPage onePageWorld ''payment_error'' ''2025-09-09'' ''2025-09-16''
     ([ipOnlyEvent] @ undatedEvent # []) [] =
   filterPage onePageWorld ''payment_error'' ''2025-09-09'' ''2025-09-16'' ([ipOnlyEvent] @ []) []
 \<and> map_option (\<lambda>(fs', reqs). (dirOf fs' ''data/raw/payment_error_6722248692'', reqs))
       (fetchMissingChunks onePageWorld emptyDisk ''6722248692'' ''Payment Error''
          ''payment_error'' ''2025-09-09'' ''2025-09-16'') =
     Some ([(''2025-09-09_to_2025-09-16.json'',
             ChunkJson \<lparr>fetchDate = ''2025-10-09T12:00:00.000Z'', issueId = ''6722248692'',
               issueName = ''Payment Error'', dateRangeStart = ''2025-09-09'',
               dateRangeEnd = ''2025-09-16'', totalEvents = 1,
               events = [\<lparr>timestamp = ''2025-09-10T08:30:00Z'', eventId = Some ''e1'',
                 userId = ''1.2.3.4'', paymentErrorReason = None, merchant_id = None,
                 customerId = None, storeState = None, storeId = None\<rparr>]\<rparr>)],
           [FirstPage ''6722248692'' ''2025-09-09T00:00:00Z'' ''2025-09-16T23:59:59Z''])
 \<and> fromPages onePageWorld ''payment_error'' ''2025-09-09'' ''2025-09-16''
       [FirstPage ''6722248692'' ''2025-09-09T00:00:00Z'' ''2025-09-16T23:59:59Z'']
       \<lparr>timestamp = ''2025-09-10T08:30:00Z'', eventId = Some ''e1'',
        userId = ''1.2.3.4'', paymentErrorReason = None, merchant_id = None,
        customerId = None, storeState = None, storeId = None\<rparr>"
proof -
  let ?run = "fetchMissingChunks onePageWorld emptyDisk ''6722248692'' ''Payment Error''
          ''payment_error'' ''2025-09-09'' ''2025-09-16''"
  let ?m = "\<lparr>timestamp = ''2025-09-10T08:30:00Z'', eventId = Some ''e1'',
        userId = ''1.2.3.4'', paymentErrorReason = None, merchant_id = None,
        customerId = None, storeState = None, storeId = None\<rparr>"
  let ?c = "\<lparr>fetchDate = ''2025-10-09T12:00:00.000Z'', issueId = ''6722248692'',
               issueName = ''Payment Error'', dateRangeStart = ''2025-09-09'',
               dateRangeEnd = ''2025-09-16'', totalEvents = 1, events = [?m]\<rparr>"
  let ?reqs = "[FirstPage ''6722248692'' ''2025-09-09T00:00:00Z'' ''2025-09-16T23:59:59Z'']"
  have undated: "\<not> truthy (dateCreated undatedEvent) \<and> \<not> truthy (dateReceived undatedEvent)"
    by (simp add: undatedEvent_def)
  have dir: "getChunkDir ''6722248692'' ''Payment Error'' = ''data/raw/payment_error_6722248692''"
    by code_simp
  have empty: "dirOf emptyDisk ''data/raw/payment_error_6722248692'' = []"
    by (simp add: dirOf_def emptyDisk_def)
  have run: "map_option (\<lambda>(fs', reqs). (dirOf fs' ''data/raw/payment_error_6722248692'', reqs)) ?run =
     Some ([(''2025-09-09_to_2025-09-16.json'', ChunkJson ?c)], ?reqs)"
    by code_simp
  then obtain fs' where r: "?run = Some (fs', ?reqs)"
    and d: "dirOf fs' ''data/raw/payment_error_6722248692'' =
            [(''2025-09-09_to_2025-09-16.json'', ChunkJson ?c)]"
    by (cases ?run) auto
  note inst = undated_events_never_stored
    [of undatedEvent onePageWorld "''payment_error''" "''2025-09-09''" "''2025-09-16''"
        "[ipOnlyEvent]" "[]" "[]" emptyDisk "''6722248692''" "''Payment Error''"
        "''2025-09-09''" "''2025-09-16''" fs' ?reqs]
  from inst undated have 1: "filterPage onePageWorld ''payment_error'' ''2025-09-09'' ''2025-09-16''
     ([ipOnlyEvent] @ undatedEvent # []) [] =
   filterPage onePageWorld ''payment_error'' ''2025-09-09'' ''2025-09-16'' ([ipOnlyEvent] @ []) []"
    by blast
  from inst r have "\<forall>entry \<in> set (dirOf fs' (getChunkDir ''6722248692'' ''Payment Error'')).
         entry \<in> set (dirOf emptyDisk (getChunkDir ''6722248692'' ''Payment Error'')) \<or>
         (\<exists>c. snd entry = ChunkJson c \<and>
              (\<forall>m \<in> set (events c).
                 fromPages onePageWorld ''payment_error'' (dateRangeStart c) (dateRangeEnd c) ?reqs m))"
    by blast
  then have 3: "fromPages onePageWorld ''payment_error'' ''2025-09-09'' ''2025-09-16'' ?reqs ?m"
    unfolding dir d empty by simp
  from 1 run 3 show ?thesis by (simp only: simp_thms)
qed

section \<open>Chunk file names and the gap detector: properties\<close>

text \<open>A date string of the chunk file names has ten characters and no underscore.\<close>

lemma isDigit_not_underscore: "isDigit c \<Longrightarrow> CHR ''_'' \<noteq> c"
  by (auto simp: isDigit_def)

lemma isDateString_shape:
  assumes "isDateString a"
  shows "length a = 10 \<and> CHR ''_'' \<notin> set a"
  using assms by (rule isDateString.elims(2)) (simp add: isDigit_not_underscore)

text \<open>Two splits of a list at a separator that occurs in neither prefix are the same split.\<close>

lemma append_separator_unique:
  "x \<notin> set xs \<Longrightarrow> x \<notin> set ys \<Longrightarrow> xs @ x # r1 = ys @ x # r2 \<Longrightarrow> xs = ys \<and> r1 = r2"
proof (induction xs arbitrary: ys)
  case Nil
  then show ?case by (cases ys) auto
next
  case (Cons a xs)
  then show ?case by (cases ys) auto
qed

text \<open>The key of a pair of date strings is the key of no other pair of strings.\<close>

lemma rangeKey_inject:
  assumes "CHR ''_'' \<notin> set a" and "CHR ''_'' \<notin> set b" and "rangeKey s e = rangeKey a b"
  shows "s = a \<and> e = b"
proof -
  let ?U = "\<lambda>xs. length (filter (\<lambda>c. c = CHR ''_'') xs)"
  have fa: "filter (\<lambda>c. c = CHR ''_'') a = []" using assms(1) by (auto simp: filter_empty_conv)
  have fb: "filter (\<lambda>c. c = CHR ''_'') b = []" using assms(2) by (auto simp: filter_empty_conv)
  have "?U (rangeKey s e) = ?U (rangeKey a b)" using assms(3) by simp
  moreover have "?U (rangeKey s e) = ?U s + 2 + ?U e" by (simp add: rangeKey_def)
  moreover have "?U (rangeKey a b) = 2"
    by (simp add: rangeKey_def fa fb)
  ultimately have "?U s = 0" by simp
  then have s: "CHR ''_'' \<notin> set s" by (auto simp: filter_empty_conv)
  have eq: "s @ CHR ''_'' # (''to_'' @ e) = a @ CHR ''_'' # (''to_'' @ b)"
    using assms(3) by (simp add: rangeKey_def)
  have "s = a \<and> ''to_'' @ e = ''to_'' @ b"
    using s assms(1) eq by (rule append_separator_unique)
  then show ?thesis by simp
qed

lemma split_chunk_name:
  "take 10 f @ take 4 (drop 10 f) @ take 10 (drop 14 f) @ drop 24 f = f"
proof -
  have "take 10 f @ take 4 (drop 10 f) @ take 10 (drop 4 (drop 10 f)) @
          drop 10 (drop 4 (drop 10 f)) = f"
    by (simp only: append_take_drop_id)
  moreover have "drop 4 (drop 10 f) = drop 14 f" by simp
  moreover have "drop 10 (drop 14 f) = drop 24 f" by simp
  ultimately show ?thesis by simp
qed

text \<open>The pattern of the chunk file names matches exactly the names that \<open>saveChunk\<close> builds from two date strings.\<close>

lemma matchChunkName_SomeD:
  assumes m: "matchChunkName f = Some (a, b)"
  shows "f = getChunkFilename a b \<and> isDateString a \<and> isDateString b"
proof -
  from m have c: "length f = 29 \<and> isDateString (take 10 f) \<and> take 4 (drop 10 f) = ''_to_'' \<and>
         isDateString (take 10 (drop 14 f)) \<and> drop 24 f = ''.json''"
    unfolding matchChunkName_def by (meson option.distinct(1))
  with m have ab: "a = take 10 f" "b = take 10 (drop 14 f)"
    unfolding matchChunkName_def by simp_all
  have "f = take 10 f @ take 4 (drop 10 f) @ take 10 (drop 14 f) @ drop 24 f"
    by (rule split_chunk_name [symmetric])
  also have "\<dots> = a @ ''_to_'' @ b @ ''.json''"
    using c ab by (simp only:)
  finally show ?thesis
    using c ab by (simp only: getChunkFilename_def simp_thms)
qed

lemma matchChunkName_getChunkFilename:
  assumes "isDateString a" and "isDateString b"
  shows "matchChunkName (getChunkFilename a b) = Some (a, b)"
proof -
  let ?f = "a @ ''_to_'' @ b @ ''.json''"
  have la: "length a = 10" and lb: "length b = 10"
    using assms by (auto dest: isDateString_shape)
  have 1: "length ?f = 29" using la lb by simp
  have 2: "take 10 ?f = a" using la by simp
  have 3: "drop 10 ?f = ''_to_'' @ b @ ''.json''" using la by simp
  have 4: "take 4 (drop 10 ?f) = ''_to_''" unfolding 3 by simp
  have 5: "drop 14 ?f = b @ ''.json''" using la by simp
  have 6: "take 10 (drop 14 ?f) = b" unfolding 5 using lb by simp
  have 7: "drop 24 ?f = ''.json''" using la lb by simp
  show ?thesis
    unfolding matchChunkName_def getChunkFilename_def
    using assms by (simp only: 1 2 4 6 7 simp_thms if_True)
qed

lemma matchChunkName_iff:
  "matchChunkName f = Some (a, b) \<longleftrightarrow>
     f = getChunkFilename a b \<and> isDateString a \<and> isDateString b"
  using matchChunkName_SomeD matchChunkName_getChunkFilename by blast

lemma matchChunkName_endsWith:
  assumes "matchChunkName f = Some p"
  shows "endsWith f ''.json''"
proof -
  from assms have "length f = 29 \<and> drop 24 f = ''.json''"
    unfolding matchChunkName_def by (meson option.distinct(1))
  then show ?thesis by (simp add: endsWith_def)
qed

text \<open>The windows on disk are the pairs of date strings whose chunk file is in the directory.\<close>

lemma set_map_filter_conv:
  "set (List.map_filter g xs) = {y. \<exists>x \<in> set xs. g x = Some y}"
  by (induction xs) (auto split: option.splits)

lemma chunkPairs_iff:
  "(a, b) \<in> chunkPairs fs issue name \<longleftrightarrow>
     getChunkFilename a b \<in> fst ` set (dirOf fs (getChunkDir issue name)) \<and>
     isDateString a \<and> isDateString b"
proof (cases "fs (getChunkDir issue name)")
  case None
  then show ?thesis
    by (simp add: chunkPairs_def loadExistingChunks_def dirOf_def)
next
  case (Some dir)
  let ?g = "\<lambda>f. case matchChunkName f of
                   Some (s, e) \<Rightarrow>
                     Some \<lparr>filename = f, path = getChunkDir issue name @ ''/'' @ f,
                           chunk_start = s, chunk_end = e\<rparr>
                 | None \<Rightarrow> None"
  have chunks: "set (loadExistingChunks fs issue name) =
      {c. \<exists>f \<in> fst ` set dir. endsWith f ''.json'' \<and> ?g f = Some c}"
    using Some by (auto simp: loadExistingChunks_def Let_def set_map_filter_conv)
  show ?thesis
  proof
    assume "(a, b) \<in> chunkPairs fs issue name"
    then obtain f where f: "f \<in> fst ` set dir" and m: "matchChunkName f = Some (a, b)"
      unfolding chunkPairs_def chunks by (force split: option.splits)
    from m have "f = getChunkFilename a b \<and> isDateString a \<and> isDateString b"
      by (rule matchChunkName_SomeD)
    with f Some show "getChunkFilename a b \<in> fst ` set (dirOf fs (getChunkDir issue name)) \<and>
     isDateString a \<and> isDateString b"
      by (simp add: dirOf_def)
  next
    assume r: "getChunkFilename a b \<in> fst ` set (dirOf fs (getChunkDir issue name)) \<and>
     isDateString a \<and> isDateString b"
    then have m: "matchChunkName (getChunkFilename a b) = Some (a, b)"
      by (simp add: matchChunkName_getChunkFilename)
    then have e: "endsWith (getChunkFilename a b) ''.json''"
      by (rule matchChunkName_endsWith)
    let ?c = "\<lparr>filename = getChunkFilename a b,
               path = getChunkDir issue name @ ''/'' @ getChunkFilename a b,
               chunk_start = a, chunk_end = b\<rparr>"
    have "getChunkFilename a b \<in> fst ` set dir"
      using r Some by (simp add: dirOf_def)
    moreover have "?g (getChunkFilename a b) = Some ?c"
      using m by simp
    ultimately have "?c \<in> set (loadExistingChunks fs issue name)"
      unfolding chunks using e by blast
    then have "(chunk_start ?c, chunk_end ?c) \<in> chunkPairs fs issue name"
      unfolding chunkPairs_def by (rule imageI)
    then show "(a, b) \<in> chunkPairs fs issue name" by simp
  qed
qed

lemma existingRanges_iff:
  "rangeKey s e \<in> existingRanges (loadExistingChunks fs issue name) \<longleftrightarrow>
     (s, e) \<in> chunkPairs fs issue name"
proof
  assume "rangeKey s e \<in> existingRanges (loadExistingChunks fs issue name)"
  then obtain c where c: "c \<in> set (loadExistingChunks fs issue name)"
      and k: "rangeKey s e = rangeKey (chunk_start c) (chunk_end c)"
    by (auto simp: existingRanges_def)
  from c have p: "(chunk_start c, chunk_end c) \<in> chunkPairs fs issue name"
    unfolding chunkPairs_def by (rule imageI)
  then have "isDateString (chunk_start c)" "isDateString (chunk_end c)"
    by (simp_all add: chunkPairs_iff)
  then have "CHR ''_'' \<notin> set (chunk_start c)" "CHR ''_'' \<notin> set (chunk_end c)"
    by (simp_all add: isDateString_shape)
  from rangeKey_inject [OF this k] p show "(s, e) \<in> chunkPairs fs issue name" by simp
next
  assume "(s, e) \<in> chunkPairs fs issue name"
  then show "rangeKey s e \<in> existingRanges (loadExistingChunks fs issue name)"
    by (auto simp: chunkPairs_def existingRanges_def)
qed

lemma missingRanges_pairs:
  "missingRanges allRanges (existingRanges (loadExistingChunks fs issue name)) =
     filter (\<lambda>r. (range_start r, range_end r) \<notin> chunkPairs fs issue name) allRanges"
  by (simp add: missingRanges_def existingRanges_iff)



section \<open>The fetch-and-cache flow: properties\<close>

text \<open>The loop over the missing windows adds the chunk file of each of them, and no other file.\<close>

lemma fetchEach_names:
  "fetchEach w issue name t ranges fs sent = Some (fs', sent') \<Longrightarrow>
   fst ` set (dirOf fs' (getChunkDir issue name)) =
     fst ` set (dirOf fs (getChunkDir issue name)) \<union>
     (\<lambda>r. getChunkFilename (range_start r) (range_end r)) ` set ranges"
proof (induction ranges arbitrary: fs sent)
  case Nil
  then show ?case by simp
next
  case (Cons rng rest)
  from Cons.prems obtain evs reqs where
    fetch: "fetchDateRangeChunk w issue t (range_start rng) (range_end rng) = Some (evs, reqs)"
    by (auto split: option.splits)
  let ?fs1 = "saveChunk w fs issue name (range_start rng) (range_end rng) evs"
  from Cons.prems fetch
  have rest: "fetchEach w issue name t rest ?fs1 (sent @ reqs) = Some (fs', sent')"
    by (simp only: fetchEach.simps option.case prod.case saveChunk_branches)
  show ?case
    unfolding Cons.IH [OF rest] dirOf_saveChunk names_writeFile by auto
qed

text \<open>The planned windows depend on the world only through its date parser.\<close>

lemma plannedRanges_runtime:
  "newDate w' = newDate w \<Longrightarrow> plannedRanges w' s e = plannedRanges w s e"
  by (simp add: plannedRanges_def parseDate_def)

text \<open>
  Claim C5, as the code has it. When the bounds of the planned windows are date strings
  \<open>YYYY-MM-DD\<close> (what \<open>toISOString\<close> prints for the years 0 to 9999, and the only names that the
  pattern of \<open>loadExistingChunks\<close> reads) and a run of \<open>fetchMissingChunks\<close> over a range has
  returned, a second run over the same range on the file system that the first run left
  (with the same date parser; the upstream may answer differently) finds no planned window
  missing, and returns with that file system unchanged and without a request sent.
\<close>

theorem second_run_fetches_nothing:
  assumes run: "fetchMissingChunks w fs issue name t startDate endDate = Some (fs', reqs)"
    and planned: "plannedRanges w startDate endDate = Some allRanges"
    and dates: "\<forall>r \<in> set allRanges. isDateString (range_start r) \<and> isDateString (range_end r)"
    and runtime: "newDate w' = newDate w"
  shows "missingRanges allRanges (existingRanges (loadExistingChunks fs' issue name)) = []
       \<and> fetchMissingChunks w' fs' issue name t startDate endDate = Some (fs', [])"
proof -
  let ?D = "getChunkDir issue name"
  let ?missing = "missingRanges allRanges (existingRanges (loadExistingChunks fs issue name))"
  have planned': "plannedRanges w' startDate endDate = Some allRanges"
    using planned plannedRanges_runtime [OF runtime] by simp
  have present: "\<forall>r \<in> set allRanges. (range_start r, range_end r) \<in> chunkPairs fs' issue name"
  proof (cases "?missing = []")
    case True
    with run planned have "fs' = fs"
      by (simp add: fetchMissingChunks_def)
    with True show ?thesis
      by (simp add: missingRanges_pairs filter_empty_conv)
  next
    case False
    with run planned have each: "fetchEach w issue name t ?missing fs [] = Some (fs', reqs)"
      by (simp add: fetchMissingChunks_def)
    note names = fetchEach_names [OF each]
    show ?thesis
    proof
      fix r assume r: "r \<in> set allRanges"
      have "getChunkFilename (range_start r) (range_end r) \<in> fst ` set (dirOf fs' ?D)"
      proof (cases "r \<in> set ?missing")
        case True
        then show ?thesis unfolding names by blast
      next
        case False
        with r have "(range_start r, range_end r) \<in> chunkPairs fs issue name"
          by (simp add: missingRanges_pairs)
        then have "getChunkFilename (range_start r) (range_end r) \<in> fst ` set (dirOf fs ?D)"
          by (simp add: chunkPairs_iff)
        then show ?thesis unfolding names by blast
      qed
      with dates r show "(range_start r, range_end r) \<in> chunkPairs fs' issue name"
        by (simp add: chunkPairs_iff)
    qed
  qed
  then have none: "missingRanges allRanges (existingRanges (loadExistingChunks fs' issue name)) = []"
    by (simp add: missingRanges_pairs filter_empty_conv)
  with planned' have "fetchMissingChunks w' fs' issue name t startDate endDate = Some (fs', [])"
    by (simp add: fetchMissingChunks_def)
  with none show ?thesis by (rule conjI)
qed


text \<open>
  Two runs over 2025-09-09 to 2025-09-16 from the empty disk: the first sends one request,
  the second none.
\<close>

theorem second_run_fetches_nothing_witness:
  "(case fetchMissingChunks onePageWorld emptyDisk ''6722248692'' ''Payment Error''
           ''payment_error'' ''2025-09-09'' ''2025-09-16'' of
      None \<Rightarrow> False
    | Some (fs', reqs) \<Rightarrow>
        reqs = [FirstPage ''6722248692'' ''2025-09-09T00:00:00Z'' ''2025-09-16T23:59:59Z''] \<and>
        fetchMissingChunks onePageWorld fs' ''6722248692'' ''Payment Error''
           ''payment_error'' ''2025-09-09'' ''2025-09-16'' = Some (fs', []))"
proof -
  let ?run = "fetchMissingChunks onePageWorld emptyDisk ''6722248692'' ''Payment Error''
           ''payment_error'' ''2025-09-09'' ''2025-09-16''"
  let ?reqs = "[FirstPage ''6722248692'' ''2025-09-09T00:00:00Z'' ''2025-09-16T23:59:59Z'']"
  have "map_option snd ?run = Some ?reqs"
    by code_simp
  then obtain fs' where run: "?run = Some (fs', ?reqs)"
    by (cases ?run) auto
  have planned: "plannedRanges onePageWorld ''2025-09-09'' ''2025-09-16'' =
      Some [\<lparr>range_start = ''2025-09-09'', range_end = ''2025-09-16''\<rparr>]"
    by code_simp
  have dates: "\<forall>r \<in> set [\<lparr>range_start = ''2025-09-09'', range_end = ''2025-09-16''\<rparr>].
      isDateString (range_start r) \<and> isDateString (range_end r)"
    by (simp add: isDigit_def)
  have "fetchMissingChunks onePageWorld fs' ''6722248692'' ''Payment Error''
           ''payment_error'' ''2025-09-09'' ''2025-09-16'' = Some (fs', [])"
    using second_run_fetches_nothing [OF run planned dates refl] by (rule conjunct2)
  with run show ?thesis by simp
qed


text \<open>
  Claim C5 as it is written fails. Over the range 9999-12-30 to +010000-01-02 the planner
  returns one window whose end date is printed with an expanded year. The first run saves
  its chunk under a name that the pattern of \<open>loadExistingChunks\<close> does not read, so the
  second run finds the window missing and sends the request again.
\<close>

theorem second_run_fetches_again_on_expanded_year:
  "plannedRanges expandedYearWorld ''9999-12-30'' ''+010000-01-02'' =
     Some [\<lparr>range_start = ''9999-12-30'', range_end = ''+010000-01-02''\<rparr>]
 \<and> (case fetchMissingChunks expandedYearWorld emptyDisk ''6722248692'' ''Payment Error''
           ''payment_error'' ''9999-12-30'' ''+010000-01-02'' of
      None \<Rightarrow> False
    | Some (fs', reqs) \<Rightarrow>
        reqs = [FirstPage ''6722248692'' ''9999-12-30T00:00:00Z'' ''+010000-01-02T23:59:59Z''] \<and>
        map fst (dirOf fs' ''data/raw/payment_error_6722248692'') =
          [''9999-12-30_to_+010000-01-02.json''] \<and>
        map_option snd
          (fetchMissingChunks expandedYearWorld fs' ''6722248692'' ''Payment Error''
             ''payment_error'' ''9999-12-30'' ''+010000-01-02'') =
          Some [FirstPage ''6722248692'' ''9999-12-30T00:00:00Z'' ''+010000-01-02T23:59:59Z''])"
  by code_simp

text \<open>
  Claim C1 against the code. The upstream rejects the request of the window 2025-09-09 to
  2025-09-16. \<open>fetchDateRangeChunk\<close> catches the error and returns the empty list, and
  \<open>fetchMissingChunks\<close> saves a chunk without events for the window. On the next run, against
  an upstream that answers, the window is found on disk and no request is sent for it.
\<close>

theorem failed_fetch_saves_empty_chunk:
  "(case fetchMissingChunks failingWorld emptyDisk ''6722248692'' ''Payment Error''
           ''payment_error'' ''2025-09-09'' ''2025-09-16'' of
      None \<Rightarrow> False
    | Some (fs', reqs) \<Rightarrow>
        reqs = [FirstPage ''6722248692'' ''2025-09-09T00:00:00Z'' ''2025-09-16T23:59:59Z''] \<and>
        dirOf fs' ''data/raw/payment_error_6722248692'' =
          [(''2025-09-09_to_2025-09-16.json'',
            ChunkJson \<lparr>fetchDate = ''2025-10-09T12:00:00.000Z'', issueId = ''6722248692'',
              issueName = ''Payment Error'', dateRangeStart = ''2025-09-09'',
              dateRangeEnd = ''2025-09-16'', totalEvents = 0, events = []\<rparr>)] \<and>
        map_option snd
          (fetchMissingChunks onePageWorld fs' ''6722248692'' ''Payment Error''
             ''payment_error'' ''2025-09-09'' ''2025-09-16'') = Some [])"
  by code_simp

section \<open>The reader: properties\<close>

text \<open>
  The loop over the files: when every overlapping chunk file holds a chunk, the result is
  the events pushed before, followed by the events in range of each overlapping chunk, in
  the order of the listing.
\<close>

lemma loadChunkFiles_concat:
  "\<forall>entry \<in> set (overlapping s e dir). snd entry \<noteq> NotChunk \<Longrightarrow>
   loadChunkFiles s e dir acc =
     Inr (acc @ concat (map (\<lambda>entry. eventsInRange s e (snd entry)) (overlapping s e dir)))"
proof (induction dir arbitrary: acc)
  case Nil
  then show ?case by (simp add: overlapping_def)
next
  case (Cons entry dir)
  have rest: "\<forall>entry \<in> set (overlapping s e dir). snd entry \<noteq> NotChunk"
    using Cons.prems by (simp add: overlapping_def)
  note ih = Cons.IH [OF rest]
  let ?P = "\<lambda>entry :: string \<times> fileContent. case matchChunkName (fst entry) of
             None \<Rightarrow> False
           | Some (chunkStart, chunkEnd) \<Rightarrow> chunkEnd \<ge> s \<and> chunkStart \<le> e"
  show ?case
  proof (cases "?P entry")
    case False
    then have skip: "overlapping s e (entry # dir) = overlapping s e dir"
      by (simp add: overlapping_def)
    from False have "loadChunkFiles s e (entry # dir) acc = loadChunkFiles s e dir acc"
      by (auto split: option.splits)
    then show ?thesis by (simp add: skip ih)
  next
    case True
    then have keep: "overlapping s e (entry # dir) = entry # overlapping s e dir"
      by (simp add: overlapping_def)
    with Cons.prems obtain chunk where c: "snd entry = ChunkJson chunk"
      by (cases "snd entry") auto
    from True have "loadChunkFiles s e (entry # dir) acc =
      loadChunkFiles s e dir
        (acc @ filter (\<lambda>event. inRange (eventDate event) s e) (events chunk))"
      using c by (auto split: option.splits)
    then show ?thesis
      by (simp add: keep ih c eventsInRange_def)
  qed
qed

text \<open>Every name that the pattern matches ends with \<open>.json\<close>.\<close>

lemma overlapping_json:
  "overlapping s e (filter (\<lambda>file. endsWith (fst file) ''.json'') dir) = overlapping s e dir"
  unfolding overlapping_def filter_filter
  by (rule filter_cong) (auto split: option.splits dest: matchChunkName_endsWith)

lemma loadChunksInDateRange_concat:
  assumes "\<forall>entry \<in> set (overlapping s e (dirOf fs (getChunkDir issue name))). snd entry \<noteq> NotChunk"
  shows "loadChunksInDateRange fs issue name s e =
     Inr (concat (map (\<lambda>entry. eventsInRange s e (snd entry))
            (overlapping s e (dirOf fs (getChunkDir issue name)))))"
proof (cases "fs (getChunkDir issue name)")
  case None
  then show ?thesis
    by (simp add: loadChunksInDateRange_def dirOf_def overlapping_def)
next
  case (Some dir)
  then have d: "dirOf fs (getChunkDir issue name) = dir" by (simp add: dirOf_def)
  have "\<forall>entry \<in> set (overlapping s e (filter (\<lambda>file. endsWith (fst file) ''.json'') dir)).
          snd entry \<noteq> NotChunk"
    using assms unfolding d overlapping_json .
  from loadChunkFiles_concat [OF this, of "[]"] Some show ?thesis
    by (simp add: loadChunksInDateRange_def d overlapping_json)
qed

text \<open>In the lexicographic order, a prefix of fixed length grows with the list.\<close>

lemma take_le_mono:
  fixes x y :: "'a::linorder list"
  shows "x \<le> y \<Longrightarrow> take n x \<le> take n y"
proof (induction n arbitrary: x y)
  case 0
  then show ?case by simp
next
  case (Suc n)
  show ?case
  proof (cases x)
    case Nil
    then show ?thesis by simp
  next
    case (Cons a xs)
    with Suc.prems obtain b ys where y: "y = b # ys" by (cases y) auto
    with Cons Suc.prems have "a < b \<or> a = b \<and> xs \<le> ys" by simp
    then show ?thesis
      using Suc.IH [of xs ys] Cons y by auto
  qed
qed

lemma overlapping_sorted:
  assumes "sorted (map fst dir)"
  shows "sorted (map chunkStartOf (overlapping s e dir))"
proof -
  from assms have "sorted_wrt (\<lambda>x y. fst x \<le> fst y) dir"
    by (simp add: sorted_map)
  then have "sorted_wrt (\<lambda>x y. chunkStartOf x \<le> chunkStartOf y) dir"
    by (rule sorted_wrt_mono_rel [rotated]) (simp add: chunkStartOf_def take_le_mono)
  then have "sorted_wrt (\<lambda>x y. chunkStartOf x \<le> chunkStartOf y) (overlapping s e dir)"
    unfolding overlapping_def by (rule sorted_wrt_filter)
  then show ?thesis by (simp add: sorted_map)
qed

text \<open>
  Claim C3, as the code has it. When every chunk file whose window overlaps the requested
  range holds a chunk, \<open>loadChunksInDateRange\<close> returns the events of exactly the chunk files
  whose window (read from the file name) overlaps the range, only those events whose date
  lies within the range, concatenated in the order in which the directory lists the files,
  each chunk's events in their order in the file. When the listing is sorted by file name,
  that order is ascending by the start date of the chunks.
\<close>

theorem reader_concatenates_in_listing_order:
  assumes "\<forall>entry \<in> set (overlapping startDate endDate (dirOf fs (getChunkDir issue name))).
             snd entry \<noteq> NotChunk"
  shows "loadChunksInDateRange fs issue name startDate endDate =
           Inr (concat (map (\<lambda>entry. eventsInRange startDate endDate (snd entry))
                  (overlapping startDate endDate (dirOf fs (getChunkDir issue name)))))
       \<and> (\<forall>event \<in> set (concat (map (\<lambda>entry. eventsInRange startDate endDate (snd entry))
                  (overlapping startDate endDate (dirOf fs (getChunkDir issue name))))).
             inRange (eventDate event) startDate endDate)
       \<and> (sorted (map fst (dirOf fs (getChunkDir issue name))) \<longrightarrow>
             sorted (map chunkStartOf
                  (overlapping startDate endDate (dirOf fs (getChunkDir issue name)))))"
proof (intro conjI impI)
  show "loadChunksInDateRange fs issue name startDate endDate =
           Inr (concat (map (\<lambda>entry. eventsInRange startDate endDate (snd entry))
                  (overlapping startDate endDate (dirOf fs (getChunkDir issue name)))))"
    using assms by (rule loadChunksInDateRange_concat)
  show "\<forall>event \<in> set (concat (map (\<lambda>entry. eventsInRange startDate endDate (snd entry))
                  (overlapping startDate endDate (dirOf fs (getChunkDir issue name))))).
             inRange (eventDate event) startDate endDate"
    by (auto simp: eventsInRange_def split: fileContent.splits)
next
  assume "sorted (map fst (dirOf fs (getChunkDir issue name)))"
  then show "sorted (map chunkStartOf
                  (overlapping startDate endDate (dirOf fs (getChunkDir issue name))))"
    by (rule overlapping_sorted)
qed

text \<open>
  The range 2025-09-12 to 2025-09-17 on a disk listed by name: both chunks overlap, and one
  event of each lies in the range.
\<close>

theorem reader_concatenates_in_listing_order_witness:
  "loadChunksInDateRange sortedDisk ''6722248692'' ''Payment Error'' ''2025-09-12'' ''2025-09-17'' =
     Inr [errorEvent ''2025-09-13T09:00:00Z'' ''u2'' ''Insufficient Funds'',
          errorEvent ''2025-09-17T10:00:00Z'' ''u3'' ''Insufficient Funds'']
 \<and> map chunkStartOf (overlapping ''2025-09-12'' ''2025-09-17''
       (dirOf sortedDisk (getChunkDir ''6722248692'' ''Payment Error''))) =
     [''2025-09-09'', ''2025-09-16'']
 \<and> sorted (map chunkStartOf (overlapping ''2025-09-12'' ''2025-09-17''
       (dirOf sortedDisk (getChunkDir ''6722248692'' ''Payment Error''))))"
proof -
  let ?ov = "overlapping ''2025-09-12'' ''2025-09-17''
       (dirOf sortedDisk (getChunkDir ''6722248692'' ''Payment Error''))"
  have ov: "?ov =
     [(''2025-09-09_to_2025-09-15.json'',
           chunkOf ''2025-09-09'' ''2025-09-15''
             [errorEvent ''2025-09-10T08:00:00Z'' ''u1'' ''Insufficient Funds'',
              errorEvent ''2025-09-13T09:00:00Z'' ''u2'' ''Insufficient Funds'']),
        (''2025-09-16_to_2025-09-22.json'',
           chunkOf ''2025-09-16'' ''2025-09-22''
             [errorEvent ''2025-09-17T10:00:00Z'' ''u3'' ''Insufficient Funds'',
              errorEvent ''2025-09-20T11:00:00Z'' ''u1'' ''Insufficient Funds''])]"
    by code_simp
  have parse: "\<forall>entry \<in> set ?ov. snd entry \<noteq> NotChunk"
    unfolding ov by (simp add: chunkOf_def)
  have listed: "sorted (map fst (dirOf sortedDisk (getChunkDir ''6722248692'' ''Payment Error'')))"
    by code_simp
  have evs: "concat (map (\<lambda>entry. eventsInRange ''2025-09-12'' ''2025-09-17'' (snd entry)) ?ov) =
     [errorEvent ''2025-09-13T09:00:00Z'' ''u2'' ''Insufficient Funds'',
      errorEvent ''2025-09-17T10:00:00Z'' ''u3'' ''Insufficient Funds'']"
    by code_simp
  have starts: "map chunkStartOf ?ov = [''2025-09-09'', ''2025-09-16'']"
    by code_simp
  note r = reader_concatenates_in_listing_order [OF parse]
  from r have 1: "loadChunksInDateRange sortedDisk ''6722248692'' ''Payment Error''
        ''2025-09-12'' ''2025-09-17'' =
      Inr (concat (map (\<lambda>entry. eventsInRange ''2025-09-12'' ''2025-09-17'' (snd entry)) ?ov))"
    by (rule conjunct1)
  from r listed have 3: "sorted (map chunkStartOf ?ov)"
    by blast
  from 1 evs starts 3 show ?thesis by (simp only: simp_thms)
qed

text \<open>
  Claim C3 as it is written fails: the code does not sort. On a directory that lists the
  chunk of 2025-09-16 before the chunk of 2025-09-09, the events come back in that order,
  which is not ascending by chunk start date.
\<close>

theorem reader_not_ascending_on_unsorted_listing:
  "loadChunksInDateRange unsortedDisk ''6722248692'' ''Payment Error'' ''2025-09-09'' ''2025-09-22'' =
     Inr [errorEvent ''2025-09-17T10:00:00Z'' ''u3'' ''Insufficient Funds'',
          errorEvent ''2025-09-10T08:00:00Z'' ''u1'' ''Insufficient Funds'']
 \<and> map chunkStartOf (overlapping ''2025-09-09'' ''2025-09-22''
       (dirOf unsortedDisk (getChunkDir ''6722248692'' ''Payment Error''))) =
     [''2025-09-16'', ''2025-09-09'']
 \<and> \<not> sorted [''2025-09-16'', ''2025-09-09'']"
  by code_simp

text \<open>
  After a file is written into a directory of distinct names in which no other file
  satisfies \<open>P\<close>, the written file is the only one that can satisfy \<open>P\<close>.
\<close>

lemma filter_writeFile_only:
  "distinct (map fst dir) \<Longrightarrow>
   \<forall>entry \<in> set dir. fst entry \<noteq> f \<longrightarrow> \<not> P entry \<Longrightarrow>
   filter P (writeFile f c dir) = (if P (f, c) then [(f, c)] else [])"
proof (induction dir)
  case Nil
  then show ?case by simp
next
  case (Cons entry dir)
  show ?case
  proof (cases "fst entry = f")
    case True
    with Cons.prems(1) have "f \<notin> fst ` set dir" by simp
    then have "\<forall>x \<in> set dir. fst x \<noteq> f" by blast
    with Cons.prems have "filter P dir = []"
      by (auto simp: filter_empty_conv)
    with True show ?thesis by simp
  next
    case False
    with Cons show ?thesis by simp
  qed
qed

text \<open>
  Claim C6, as the code has it. \<open>saveChunk\<close> for a window followed by \<open>loadChunksInDateRange\<close>
  for the bounds of that window gives back the saved event list, in its order, when the
  bounds are date strings \<open>YYYY-MM-DD\<close>, the date of every saved event lies within the window,
  and no other chunk file of the directory overlaps the window (the file names of a
  directory being distinct).
\<close>

theorem save_then_read_round_trip:
  assumes start: "isDateString startDate" and stop: "isDateString endDate"
    and inside: "\<forall>event \<in> set evs. inRange (eventDate event) startDate endDate"
    and names: "distinct (map fst (dirOf fs (getChunkDir issue name)))"
    and alone: "\<forall>entry \<in> set (overlapping startDate endDate (dirOf fs (getChunkDir issue name))).
                  fst entry = getChunkFilename startDate endDate"
  shows "loadChunksInDateRange (saveChunk w fs issue name startDate endDate evs)
           issue name startDate endDate = Inr evs"
proof -
  let ?D = "getChunkDir issue name"
  let ?f = "getChunkFilename startDate endDate"
  let ?c = "ChunkJson \<lparr>fetchDate = now w, issueId = issue, issueName = name,
                   dateRangeStart = startDate, dateRangeEnd = endDate,
                   totalEvents = length evs, events = evs\<rparr>"
  let ?fs' = "saveChunk w fs issue name startDate endDate evs"
  let ?P = "\<lambda>entry :: string \<times> fileContent. case matchChunkName (fst entry) of
             None \<Rightarrow> False
           | Some (chunkStart, chunkEnd) \<Rightarrow> chunkEnd \<ge> startDate \<and> chunkStart \<le> endDate"
  have m: "matchChunkName ?f = Some (startDate, endDate)"
    using start stop by (rule matchChunkName_getChunkFilename)
  have others: "\<forall>entry \<in> set (dirOf fs ?D). fst entry \<noteq> ?f \<longrightarrow> \<not> ?P entry"
    using alone by (auto simp: overlapping_def)
  have ov: "overlapping startDate endDate (dirOf ?fs' ?D) = (if ?P (?f, ?c) then [(?f, ?c)] else [])"
    unfolding dirOf_saveChunk overlapping_def
    using names others by (rule filter_writeFile_only)
  have P: "?P (?f, ?c) \<longleftrightarrow> startDate \<le> endDate"
    using m by auto
  show ?thesis
  proof (cases "startDate \<le> endDate")
    case True
    with ov P have ov1: "overlapping startDate endDate (dirOf ?fs' ?D) = [(?f, ?c)]" by simp
    have "\<forall>entry \<in> set (overlapping startDate endDate (dirOf ?fs' ?D)). snd entry \<noteq> NotChunk"
      unfolding ov1 by simp
    from loadChunksInDateRange_concat [OF this] inside show ?thesis
      unfolding ov1 by (simp add: eventsInRange_def)
  next
    case False
    with ov P have ov0: "overlapping startDate endDate (dirOf ?fs' ?D) = []" by simp
    from False inside have "evs = []"
      by (cases evs) (auto simp: inRange_def)
    moreover have "\<forall>entry \<in> set (overlapping startDate endDate (dirOf ?fs' ?D)). snd entry \<noteq> NotChunk"
      unfolding ov0 by simp
    from loadChunksInDateRange_concat [OF this] have
      "loadChunksInDateRange ?fs' issue name startDate endDate = Inr []"
      unfolding ov0 by simp
    ultimately show ?thesis by simp
  qed
qed

text \<open>
  A chunk for 2025-09-23 to 2025-09-29 with two events, saved on the disk that holds the
  chunks of the two weeks before, and read back.
\<close>

theorem save_then_read_round_trip_witness:
  "loadChunksInDateRange
     (saveChunk onePageWorld weeklyDisk ''6722248692'' ''Payment Error'' ''2025-09-23'' ''2025-09-29''
        [errorEvent ''2025-09-24T08:00:00Z'' ''u1'' ''Insufficient Funds'',
         errorEvent ''2025-09-23T09:00:00Z'' ''u2'' ''Expired Card''])
     ''6722248692'' ''Payment Error'' ''2025-09-23'' ''2025-09-29'' =
   Inr [errorEvent ''2025-09-24T08:00:00Z'' ''u1'' ''Insufficient Funds'',
        errorEvent ''2025-09-23T09:00:00Z'' ''u2'' ''Expired Card'']"
proof -
  let ?evs = "[errorEvent ''2025-09-24T08:00:00Z'' ''u1'' ''Insufficient Funds'',
         errorEvent ''2025-09-23T09:00:00Z'' ''u2'' ''Expired Card'']"
  have start: "isDateString ''2025-09-23''" by code_simp
  have stop: "isDateString ''2025-09-29''" by code_simp
  have inside: "\<forall>event \<in> set ?evs. inRange (eventDate event) ''2025-09-23'' ''2025-09-29''"
    by code_simp
  have names: "distinct (map fst (dirOf weeklyDisk (getChunkDir ''6722248692'' ''Payment Error'')))"
    by code_simp
  have ov: "overlapping ''2025-09-23'' ''2025-09-29''
              (dirOf weeklyDisk (getChunkDir ''6722248692'' ''Payment Error'')) = []"
    by code_simp
  have alone: "\<forall>entry \<in> set (overlapping ''2025-09-23'' ''2025-09-29''
                  (dirOf weeklyDisk (getChunkDir ''6722248692'' ''Payment Error''))).
                  fst entry = getChunkFilename ''2025-09-23'' ''2025-09-29''"
    unfolding ov by simp
  show ?thesis
    using start stop inside names alone by (rule save_then_read_round_trip)
qed

text \<open>
  Claim C6 as it is written fails. A saved event whose date lies outside the window is not
  read back: the reader filters by date. And on a disk that already holds chunks of seven
  days, a chunk of thirty days over the same days is read back together with the events
  of the chunks it overlaps.
\<close>

theorem round_trip_loses_or_repeats_events:
  "loadChunksInDateRange
     (saveChunk onePageWorld emptyDisk ''6722248692'' ''Payment Error'' ''2025-09-09'' ''2025-09-15''
        [errorEvent ''2025-09-20T11:00:00Z'' ''u1'' ''Insufficient Funds''])
     ''6722248692'' ''Payment Error'' ''2025-09-09'' ''2025-09-15'' = Inr []
 \<and> loadChunksInDateRange
     (saveChunk onePageWorld unsortedDisk ''6722248692'' ''Payment Error'' ''2025-09-09'' ''2025-10-08''
        [errorEvent ''2025-09-10T08:00:00Z'' ''u1'' ''Insufficient Funds''])
     ''6722248692'' ''Payment Error'' ''2025-09-09'' ''2025-10-08'' =
   Inr [errorEvent ''2025-09-17T10:00:00Z'' ''u3'' ''Insufficient Funds'',
        errorEvent ''2025-09-10T08:00:00Z'' ''u1'' ''Insufficient Funds'',
        errorEvent ''2025-09-10T08:00:00Z'' ''u1'' ''Insufficient Funds'']"
  by code_simp

section \<open>The payment-error aggregator: properties\<close>













end
